theory Spec2Isabelle
  imports Complex_Main "HOL-Library.Sublist"
begin

section \<open>Chart processor of the bill analyser (utils/chartProcessor, v2.1)\<close>

text \<open>
  A shallow embedding of the programmatic chart engine: the word classifiers, the
  geometric candidate finder \<open>findChartCandidates\<close>, the axis calibration and bar scan
  of \<open>detectBarsForChart\<close>, and the orchestration \<open>processChart\<close>.

  Conventions of the embedding.
  \<^item> A JavaScript string is a sequence of UTF-16 code units. The model uses \<open>string\<close>
    and reads a \<open>char\<close> as the code unit of the same number, so it covers the texts
    whose code units lie in U+0000..U+00FF (ASCII and Latin-1). The classification of
    month words is given a second time on lists of arbitrary code units (\<open>isMonthU\<close>).
  \<^item> Coordinates of bounding boxes are finite numbers and are modelled as \<open>real\<close>.
    Where the source divides, the non-finite results of JavaScript are kept
    (type \<open>jsnum\<close> below). The calibration and the scan loop are modelled twice: with
    exact arithmetic on finite numbers (\<open>calibrate\<close>, \<open>scanUp\<close>), and with every
    operation rounded to binary64 (\<open>calibrate64\<close>, \<open>scanUp64\<close>); the round trip of the
    calibration law and the end of the scan loop are stated on the second.
  \<^item> An object reference is the pair of the object's position in the word array and
    its contents, so that \<open>Array.prototype.includes\<close> compares identities.
  \<^item> The image is taken as decoded: \<open>detectBarsForChart\<close> starts once the load event
    of the image has fired. Logging (\<open>addLog\<close>) has no effect on the results and is
    left out.
  \<^item> A call that never returns is the value \<open>None\<close>, a thrown error is \<open>Inl\<close>.
\<close>

subsection \<open>Data model\<close>

record BBox =
  x0 :: real
  y0 :: real
  x1 :: real
  y1 :: real

record OcrWord =
  "text" :: string
  bbox :: BBox
  confidence :: real

subsection \<open>Strings\<close>

definition codeUnit :: "char \<Rightarrow> nat" where
  "codeUnit c = of_char c"

text \<open>\<open>String.prototype.toLowerCase\<close> on U+0000..U+00FF: A--Z and the Latin-1 capitals
  U+00C0..U+00DE (without the multiplication sign U+00D7) move up by 32.\<close>

definition lowerChar :: "char \<Rightarrow> char" where
  "lowerChar c =
     (let u = codeUnit c in
      if (65 \<le> u \<and> u \<le> 90) \<or> (192 \<le> u \<and> u \<le> 222 \<and> u \<noteq> 215)
      then char_of (u + 32) else c)"

definition toLowerCase :: "string \<Rightarrow> string" where
  "toLowerCase s = map lowerChar s"

definition isLowerAZ :: "char \<Rightarrow> bool" where
  "isLowerAZ c = (97 \<le> codeUnit c \<and> codeUnit c \<le> 122)"

definition isDigit :: "char \<Rightarrow> bool" where
  "isDigit c = (48 \<le> codeUnit c \<and> codeUnit c \<le> 57)"

text \<open>White space skipped by \<open>parseInt\<close> and \<open>parseFloat\<close> (TAB, LF, VT, FF, CR, SP, NBSP).\<close>

definition isStrWhiteSpace :: "char \<Rightarrow> bool" where
  "isStrWhiteSpace c = (codeUnit c \<in> {9, 10, 11, 12, 13, 32, 160})"

text \<open>\<open>m.startsWith(p)\<close>: the first \<open>length p\<close> code units of \<open>m\<close> are \<open>p\<close>.\<close>

definition startsWith :: "string \<Rightarrow> string \<Rightarrow> bool" where
  "startsWith m p = (take (length p) m = p)"

text \<open>\<open>s.replace(/,/g, '')\<close>\<close>

definition stripCommas :: "string \<Rightarrow> string" where
  "stripCommas s = filter (\<lambda>c. c \<noteq> CHR '','') s"

subsection \<open>Text classification\<close>

definition MONTHS :: "string list" where
  "MONTHS = [''jan'', ''feb'', ''mar'', ''apr'', ''may'', ''jun'',
             ''jul'', ''aug'', ''sep'', ''oct'', ''nov'', ''dec'']"

text \<open>\<open>word.text.toLowerCase().replace(/[^a-z]/g, '')\<close>\<close>

definition cleanText :: "string \<Rightarrow> string" where
  "cleanText s = filter isLowerAZ (toLowerCase s)"

definition isMonth :: "OcrWord \<Rightarrow> bool" where
  "isMonth word = list_ex (\<lambda>m. startsWith m (cleanText (text word))) MONTHS"

text \<open>\<open>parseFloat\<close> is not NaN exactly when, after the leading white space and an
  optional sign, the string starts with a digit, with a dot and a digit, or with
  \<open>Infinity\<close>.\<close>

definition stripSign :: "string \<Rightarrow> string" where
  "stripSign s = (case s of [] \<Rightarrow> [] | c # cs \<Rightarrow> if c = CHR ''+'' \<or> c = CHR ''-'' then cs else s)"

definition parseFloatIsNaN :: "string \<Rightarrow> bool" where
  "parseFloatIsNaN s =
     (let t = stripSign (dropWhile isStrWhiteSpace s) in
      \<not> (startsWith t ''Infinity''
         \<or> (case t of [] \<Rightarrow> False
             | c # cs \<Rightarrow> isDigit c \<or> (c = CHR ''.'' \<and> (case cs of [] \<Rightarrow> False | d # _ \<Rightarrow> isDigit d)))))"

definition isNumber :: "OcrWord \<Rightarrow> bool" where
  "isNumber word = (\<not> parseFloatIsNaN (stripCommas (text word)))"

text \<open>\<open>/^\d{4}$/\<close>\<close>

definition isYear :: "OcrWord \<Rightarrow> bool" where
  "isYear word = (length (text word) = 4 \<and> list_all isDigit (text word))"

text \<open>The vocabulary of \<open>isUnit\<close> as the source file holds it: the second entry is the
  three code units \<open>m\<close>, U+00C2, U+00B3.\<close>

definition UNITS :: "string list" where
  "UNITS = [''kwh'', [CHR ''m'', CHR 0xC2, CHR 0xB3], ''therms'']"

definition isUnit :: "OcrWord \<Rightarrow> bool" where
  "isUnit word = (toLowerCase (text word) \<in> set UNITS)"

text \<open>A word with the given text and bounding box (for concrete inputs).\<close>

definition mkWord :: "string \<Rightarrow> real \<Rightarrow> real \<Rightarrow> real \<Rightarrow> real \<Rightarrow> OcrWord" where
  "mkWord t a b c d = \<lparr> text = t, bbox = \<lparr> x0 = a, y0 = b, x1 = c, y1 = d \<rparr>, confidence = 90 \<rparr>"

subsection \<open>Texts of arbitrary UTF-16 code units\<close>

text \<open>
  A text as the list of its code units, for the classification of month words on texts
  that leave U+0000..U+00FF. \<open>latinOfUnit u\<close> is what
  \<open>toLowerCase().replace(/[^a-z]/g, '')\<close> keeps of the code unit \<open>u\<close>: a capital A--Z
  gives its small letter, a small letter a--z stays, U+0130 (capital I with dot above)
  lower-cases to \<open>i\<close> followed by U+0307 and keeps the \<open>i\<close>, U+212A (the Kelvin sign)
  lower-cases to \<open>k\<close>; no other code point has a letter a--z in its lower-case form, and
  nothing is kept of it.
\<close>

definition latinOfUnit :: "nat \<Rightarrow> nat list" where
  "latinOfUnit u =
     (if 65 \<le> u \<and> u \<le> 90 then [u + 32]
      else if 97 \<le> u \<and> u \<le> 122 then [u]
      else if u = 0x130 then [0x69]
      else if u = 0x212A then [0x6B]
      else [])"

definition cleanTextU :: "nat list \<Rightarrow> nat list" where
  "cleanTextU s = concat (map latinOfUnit s)"

text \<open>\<open>MONTHS.some(m => m.startsWith(cleanText))\<close> on such a text.\<close>

definition isMonthU :: "nat list \<Rightarrow> bool" where
  "isMonthU t = list_ex (\<lambda>m. take (length (cleanTextU t)) (map codeUnit m) = cleanTextU t) MONTHS"

text \<open>Letters of the Latin alphabet in either case, A--Z and a--z.\<close>

definition isLatinLetterU :: "nat \<Rightarrow> bool" where
  "isLatinLetterU u = ((65 \<le> u \<and> u \<le> 90) \<or> (97 \<le> u \<and> u \<le> 122))"

subsection \<open>JavaScript numbers where the source divides\<close>

text \<open>
  A double is a finite number, an infinity or NaN. Finite arithmetic is exact. The sign
  of a zero is not kept: the two divisors of the source are an absolute value and a
  difference of equal numbers, so a zero divisor is always \<open>+0\<close>.
\<close>

datatype jsnum = Fin real | PosInf | NegInf | NaN

fun infOfSign :: "real \<Rightarrow> jsnum" where
  "infOfSign s = (if 0 < s then PosInf else if s < 0 then NegInf else NaN)"

fun sgnOf :: "jsnum \<Rightarrow> real" where
  "sgnOf (Fin a) = sgn a"
| "sgnOf PosInf = 1"
| "sgnOf NegInf = - 1"
| "sgnOf NaN = 0"

fun jneg :: "jsnum \<Rightarrow> jsnum" where
  "jneg (Fin a) = Fin (- a)"
| "jneg PosInf = NegInf"
| "jneg NegInf = PosInf"
| "jneg NaN = NaN"

fun jadd :: "jsnum \<Rightarrow> jsnum \<Rightarrow> jsnum" where
  "jadd (Fin a) (Fin b) = Fin (a + b)"
| "jadd NaN _ = NaN"
| "jadd _ NaN = NaN"
| "jadd PosInf NegInf = NaN"
| "jadd NegInf PosInf = NaN"
| "jadd PosInf _ = PosInf"
| "jadd NegInf _ = NegInf"
| "jadd (Fin a) b = b"

definition jsub :: "jsnum \<Rightarrow> jsnum \<Rightarrow> jsnum" where
  "jsub a b = jadd a (jneg b)"

fun jmul :: "jsnum \<Rightarrow> jsnum \<Rightarrow> jsnum" where
  "jmul (Fin a) (Fin b) = Fin (a * b)"
| "jmul NaN _ = NaN"
| "jmul _ NaN = NaN"
| "jmul a b = infOfSign (sgnOf a * sgnOf b)"

fun jdiv :: "jsnum \<Rightarrow> jsnum \<Rightarrow> jsnum" where
  "jdiv (Fin a) (Fin b) = (if b \<noteq> 0 then Fin (a / b) else infOfSign (sgn a))"
| "jdiv NaN _ = NaN"
| "jdiv _ NaN = NaN"
| "jdiv (Fin a) _ = Fin 0"
| "jdiv a (Fin b) = infOfSign (sgnOf a * (if 0 \<le> b then 1 else - 1))"
| "jdiv a b = NaN"

fun jfloor :: "jsnum \<Rightarrow> jsnum" where
  "jfloor (Fin a) = Fin (of_int \<lfloor>a\<rfloor>)"
| "jfloor a = a"

text \<open>\<open>Math.round\<close> rounds to the nearest integer, a half towards \<open>+\<infinity>\<close>.\<close>

definition mathRound :: "real \<Rightarrow> int" where
  "mathRound a = \<lfloor>a + 1 / 2\<rfloor>"

fun jround :: "jsnum \<Rightarrow> jsnum" where
  "jround (Fin a) = Fin (of_int (mathRound a))"
| "jround a = a"

text \<open>\<open>a > b\<close> and \<open>a === b\<close>: false whenever an operand is NaN.\<close>

fun jgt :: "jsnum \<Rightarrow> jsnum \<Rightarrow> bool" where
  "jgt (Fin a) (Fin b) = (b < a)"
| "jgt NaN _ = False"
| "jgt _ NaN = False"
| "jgt PosInf PosInf = False"
| "jgt PosInf _ = True"
| "jgt NegInf _ = False"
| "jgt (Fin a) NegInf = True"
| "jgt (Fin a) PosInf = False"

fun jeq :: "jsnum \<Rightarrow> jsnum \<Rightarrow> bool" where
  "jeq NaN _ = False"
| "jeq _ NaN = False"
| "jeq a b = (a = b)"

subsection \<open>Binary64 rounding\<close>

text \<open>
  The doubles are the numbers \<open>m * 2\<^sup>e\<close> with \<open>|m| < 2\<^sup>5\<^sup>3\<close> and \<open>-1074 \<le> e\<close> below
  \<open>2\<^sup>1\<^sup>0\<^sup>2\<^sup>4\<close>. \<open>ulpExp x\<close> is the exponent of the spacing of the doubles around \<open>x\<close>
  (52 below the binary exponent of \<open>x\<close>, and \<open>-1074\<close> in the subnormal range), and \<open>fl x\<close>
  is the double nearest to \<open>x\<close>, a tie going to the even multiple of the spacing; a result
  of magnitude \<open>2\<^sup>1\<^sup>0\<^sup>2\<^sup>4\<close> or more is an infinity.
\<close>

definition ulpExp :: "real \<Rightarrow> int" where
  "ulpExp x = max \<lfloor>log 2 \<bar>x\<bar>\<rfloor> (- 1022) - 52"

definition roundHalfEven :: "real \<Rightarrow> int" where
  "roundHalfEven q =
     (let f = \<lfloor>q\<rfloor>; r = q - real_of_int f
      in if r < 1 / 2 then f else if 1 / 2 < r then f + 1 else if even f then f else f + 1)"

definition fl :: "real \<Rightarrow> jsnum" where
  "fl x =
     (if x = 0 then Fin 0
      else (let e = ulpExp x; m = roundHalfEven (x / 2 powi e)
            in if 2 ^ 1024 \<le> \<bar>real_of_int m\<bar> * 2 powi e
               then (if 0 < x then PosInf else NegInf)
               else Fin (real_of_int m * 2 powi e)))"

fun flJ :: "jsnum \<Rightarrow> jsnum" where
  "flJ (Fin x) = fl x"
| "flJ a = a"

text \<open>The operators \<open>+\<close>, \<open>-\<close>, \<open>*\<close>, \<open>/\<close> of the source: the exact result, rounded.\<close>

definition dadd :: "jsnum \<Rightarrow> jsnum \<Rightarrow> jsnum" where "dadd a b = flJ (jadd a b)"
definition dsub :: "jsnum \<Rightarrow> jsnum \<Rightarrow> jsnum" where "dsub a b = flJ (jsub a b)"
definition dmul :: "jsnum \<Rightarrow> jsnum \<Rightarrow> jsnum" where "dmul a b = flJ (jmul a b)"
definition ddiv :: "jsnum \<Rightarrow> jsnum \<Rightarrow> jsnum" where "ddiv a b = flJ (jdiv a b)"

text \<open>\<open>Math.abs\<close>\<close>

fun jabs :: "jsnum \<Rightarrow> jsnum" where
  "jabs (Fin a) = Fin \<bar>a\<bar>"
| "jabs NegInf = PosInf"
| "jabs a = a"


subsection \<open>Geometric analysis utilities\<close>

record Point =
  px :: real
  py :: real

definition getCenter :: "BBox \<Rightarrow> Point" where
  "getCenter b = \<lparr> px = (x0 b + x1 b) / 2, py = (y0 b + y1 b) / 2 \<rparr>"

definition isHorizontallyAligned :: "OcrWord \<Rightarrow> OcrWord \<Rightarrow> real \<Rightarrow> bool" where
  "isHorizontallyAligned word1 word2 tolerance =
     (\<bar>py (getCenter (bbox word1)) - py (getCenter (bbox word2))\<bar> < tolerance)"

definition isVerticallyAligned :: "OcrWord \<Rightarrow> OcrWord \<Rightarrow> real \<Rightarrow> bool" where
  "isVerticallyAligned word1 word2 tolerance =
     (\<bar>px (getCenter (bbox word1)) - px (getCenter (bbox word2))\<bar> < tolerance)"

definition distance :: "Point \<Rightarrow> Point \<Rightarrow> real" where
  "distance p1 p2 = sqrt ((px p2 - px p1) ^ 2 + (py p2 - py p1) ^ 2)"

text \<open>The test \<open>distance(p1, p2) < r\<close>, with an equation that decides it without the
  square root.\<close>

definition withinDistance :: "Point \<Rightarrow> Point \<Rightarrow> real \<Rightarrow> bool" where
  "withinDistance p1 p2 r = (distance p1 p2 < r)"

lemma withinDistance_code [code]:
  "withinDistance p1 p2 r = (0 < r \<and> (px p2 - px p1) ^ 2 + (py p2 - py p1) ^ 2 < r ^ 2)"
proof (cases "0 < r")
  case True
  then have "sqrt ((px p2 - px p1) ^ 2 + (py p2 - py p1) ^ 2) < r
      \<longleftrightarrow> (px p2 - px p1) ^ 2 + (py p2 - py p1) ^ 2 < r ^ 2"
    by (metis less_eq_real_def real_less_lsqrt real_sqrt_less_iff real_sqrt_unique)
  with True show ?thesis
    by (simp add: withinDistance_def distance_def)
next
  case False
  have "0 \<le> sqrt ((px p2 - px p1) ^ 2 + (py p2 - py p1) ^ 2)"
    by simp
  with False have "\<not> sqrt ((px p2 - px p1) ^ 2 + (py p2 - py p1) ^ 2) < r"
    by linarith
  with False show ?thesis
    by (simp add: withinDistance_def distance_def)
qed

subsection \<open>Chart candidates\<close>

text \<open>A reference to a word object: its position in the word array, and the word.\<close>

type_synonym WordRef = "nat \<times> OcrWord"

definition word :: "WordRef \<Rightarrow> OcrWord" where
  "word r = snd r"

record ChartCandidate =
  cand_id :: nat
  months :: "WordRef list"
  yAxis :: "WordRef list"
  legend :: "WordRef list"
  cand_title :: "WordRef list"
  cand_unit :: "WordRef option"
  bounds :: BBox

text \<open>The objects of the array \<open>words\<close>, each with its identity.\<close>

definition refs :: "OcrWord list \<Rightarrow> WordRef list" where
  "refs words = zip [0 ..< length words] words"

text \<open>\<open>sort((a, b) => a.bbox.x0 - b.bbox.x0)\<close>: the stable sort by \<open>x0\<close>, ascending.\<close>

definition sortByX0 :: "WordRef list \<Rightarrow> WordRef list" where
  "sortByX0 ws = sort_key (\<lambda>r. x0 (bbox (word r))) ws"

text \<open>\<open>sort((a, b) => b.bbox.y0 - a.bbox.y0)\<close>: the stable sort by \<open>y0\<close>, descending.\<close>

definition sortByY0Desc :: "WordRef list \<Rightarrow> WordRef list" where
  "sortByY0Desc ws = sort_key (\<lambda>r. - y0 (bbox (word r))) ws"

text \<open>The inner loop over \<open>j\<close>: the word at \<open>i\<close> and every later word aligned with it.\<close>

definition monthGroup :: "WordRef \<Rightarrow> WordRef list \<Rightarrow> WordRef list" where
  "monthGroup m rest = m # filter (\<lambda>r. isHorizontallyAligned (word m) (word r) 10) rest"

definition associatedYAxis :: "WordRef list \<Rightarrow> WordRef list \<Rightarrow> WordRef list" where
  "associatedYAxis potentialYAxis sortedMonths =
     filter (\<lambda>y. isVerticallyAligned (word y) (word (hd sortedMonths)) 30
                \<and> x1 (bbox (word y)) < x0 (bbox (word (hd sortedMonths))))
            potentialYAxis"

text \<open>The candidate pushed for an accepted group (\<open>sortedMonths\<close> and \<open>ys\<close> are not
  empty where it is called).\<close>

definition mkCandidate ::
  "nat \<Rightarrow> WordRef list \<Rightarrow> WordRef list \<Rightarrow> WordRef list \<Rightarrow> WordRef list \<Rightarrow> ChartCandidate" where
  "mkCandidate chartId sortedMonths ys potentialLegends potentialUnits =
     (let avgY = sum_list (map (\<lambda>m. py (getCenter (bbox (word m)))) sortedMonths)
                   / real (length sortedMonths);
          maxX = x1 (bbox (word (last sortedMonths)));
          bnds = \<lparr> x0 = x0 (bbox (word (hd ys))), y0 = y0 (bbox (word (last ys))),
                   x1 = maxX, y1 = avgY \<rparr>;
          chartCenter = \<lparr> px = (x0 bnds + x1 bnds) / 2, py = (y0 bnds + y1 bnds) / 2 \<rparr>;
          associatedLegend =
            filter (\<lambda>l. withinDistance (getCenter (bbox (word l))) chartCenter 300) potentialLegends;
          associatedUnit =
            find (\<lambda>u. withinDistance (getCenter (bbox (word u))) \<lparr> px = x0 bnds, py = py chartCenter \<rparr> 100)
                 potentialUnits
      in \<lparr> cand_id = chartId, months = sortedMonths, yAxis = ys,
           legend = sortByX0 associatedLegend, cand_title = [], cand_unit = associatedUnit,
           bounds = bnds \<rparr>)"

text \<open>One turn of the outer loop, at the word \<open>m = potentialMonths[i]\<close> with the later
  words \<open>rest\<close>; the state is the array \<open>candidates\<close> and the counter \<open>chartId\<close>.\<close>

definition candidateStep ::
  "WordRef list \<Rightarrow> WordRef list \<Rightarrow> WordRef list \<Rightarrow> WordRef \<Rightarrow> WordRef list
     \<Rightarrow> ChartCandidate list \<times> nat \<Rightarrow> ChartCandidate list \<times> nat" where
  "candidateStep potentialYAxis potentialLegends potentialUnits m rest st =
     (let candidates = fst st; chartId = snd st; grp = monthGroup m rest in
      if length grp > 3 \<and> \<not> list_ex (\<lambda>c. hd grp \<in> set (months c)) candidates
      then (let sortedMonths = sortByX0 grp;
                ys = associatedYAxis potentialYAxis sortedMonths
            in if length ys > 1
               then (candidates @ [mkCandidate chartId sortedMonths ys potentialLegends potentialUnits],
                     chartId + 1)
               else st)
      else st)"

fun candidateLoop ::
  "WordRef list \<Rightarrow> WordRef list \<Rightarrow> WordRef list \<Rightarrow> WordRef list
     \<Rightarrow> ChartCandidate list \<times> nat \<Rightarrow> ChartCandidate list \<times> nat" where
  "candidateLoop pY pL pU [] st = st"
| "candidateLoop pY pL pU (m # rest) st =
     candidateLoop pY pL pU rest (candidateStep pY pL pU m rest st)"

definition potentialMonths :: "OcrWord list \<Rightarrow> WordRef list" where
  "potentialMonths words = sortByX0 (filter (\<lambda>r. isMonth (word r)) (refs words))"

definition findChartCandidates :: "OcrWord list \<Rightarrow> ChartCandidate list" where
  "findChartCandidates words =
     (let potentialYAxis = sortByY0Desc (filter (\<lambda>r. isNumber (word r)) (refs words));
          potentialLegends = filter (\<lambda>r. isYear (word r)) (refs words);
          potentialUnits = filter (\<lambda>r. isUnit (word r)) (refs words)
      in fst (candidateLoop potentialYAxis potentialLegends potentialUnits
                (potentialMonths words) ([], 0)))"

subsection \<open>Axis calibration\<close>

datatype error =
  CanvasContextError
  | InsufficientYAxisLabels nat
  | TypeError
  | IndexSizeError
  | EngineError string

text \<open>\<open>parseInt(s, 10)\<close>: leading white space, an optional sign, then the longest run
  of decimal digits; \<open>None\<close> is NaN. The value is the exact integer.\<close>

definition digitsValue :: "string \<Rightarrow> int" where
  "digitsValue ds = foldl (\<lambda>a c. 10 * a + (int (codeUnit c) - 48)) 0 ds"

definition parseInt10 :: "string \<Rightarrow> int option" where
  "parseInt10 s =
     (let t = dropWhile isStrWhiteSpace s;
          neg = (case t of [] \<Rightarrow> False | c # _ \<Rightarrow> c = CHR ''-'');
          ds = takeWhile isDigit (stripSign t)
      in if ds = [] then None else Some (if neg then - digitsValue ds else digitsValue ds))"

text \<open>The objects \<open>{value, y}\<close> of \<open>yValues\<close>.\<close>

record YValue =
  yv_value :: int
  yv_y :: real

definition yValuesOf :: "WordRef list \<Rightarrow> YValue list" where
  "yValuesOf ys =
     sort_key yv_value
       (List.map_filter
          (\<lambda>v. map_option (\<lambda>n. \<lparr> yv_value = n, yv_y = py (getCenter (bbox (word v))) \<rparr>)
                           (parseInt10 (stripCommas (text (word v)))))
          ys)"

record AxisCalibration =
  yMin :: YValue
  yMax :: YValue
  pixelRange :: real
  valueRange :: real
  valuePerPixel :: jsnum
  zeroLineY :: jsnum

text \<open>Lines 389--402 of \<open>detectBarsForChart\<close>.\<close>

definition calibrate :: "nat \<Rightarrow> WordRef list \<Rightarrow> error + AxisCalibration" where
  "calibrate chartId ys =
     (let yValues = yValuesOf ys in
      if length yValues < 2 then Inl (InsufficientYAxisLabels chartId)
      else
        (let mn = hd yValues; mx = last yValues;
             pr = \<bar>yv_y mn - yv_y mx\<bar>;
             vr = real_of_int (yv_value mx - yv_value mn)
         in Inr \<lparr> yMin = mn, yMax = mx, pixelRange = pr, valueRange = vr,
                  valuePerPixel = jdiv (Fin vr) (Fin pr),
                  zeroLineY =
                    (if yv_value mn = 0 then Fin (yv_y mn)
                     else jadd (Fin (yv_y mx))
                            (jmul (jdiv (Fin (real_of_int (yv_value mx))) (Fin vr)) (Fin pr))) \<rparr>))"

text \<open>The affine law of the calibration: \<open>value(y) = (zeroLineY - y) * valuePerPixel\<close>.\<close>

definition valueAt :: "AxisCalibration \<Rightarrow> real \<Rightarrow> jsnum" where
  "valueAt c y = jmul (jsub (zeroLineY c) (Fin y)) (valuePerPixel c)"

subsection \<open>Pixel analysis for bar detection\<close>

text \<open>The decoded image on the canvas: \<open>canvas.width\<close>, \<open>canvas.height\<close>, the bytes
  \<open>imageData.data\<close> (RGBA), and whether \<open>getContext\<close> gave a context.\<close>

record ImageData =
  img_width :: nat
  img_height :: nat
  img_data :: "nat list"
  img_context :: bool

text \<open>\<open>data[index]\<close> on a typed array: \<open>undefined\<close> (\<open>None\<close>) unless the index is an
  integer within the array.\<close>

definition readByte :: "nat list \<Rightarrow> jsnum \<Rightarrow> nat option" where
  "readByte d index =
     (case index of
        Fin r \<Rightarrow> if of_int \<lfloor>r\<rfloor> = r \<and> 0 \<le> r \<and> nat \<lfloor>r\<rfloor> < length d
                 then Some (d ! nat \<lfloor>r\<rfloor>) else None
      | _ \<Rightarrow> None)"

text \<open>\<open>r < 240 && g < 240 && b < 240\<close>; a comparison with \<open>undefined\<close> is false.\<close>

definition isDarkPixel :: "nat list \<Rightarrow> jsnum \<Rightarrow> bool" where
  "isDarkPixel d index =
     (case readByte d index of None \<Rightarrow> False
      | Some r \<Rightarrow> r < 240 \<and>
          (case readByte d (jadd index (Fin 1)) of None \<Rightarrow> False
           | Some g \<Rightarrow> g < 240 \<and>
               (case readByte d (jadd index (Fin 2)) of None \<Rightarrow> False
                | Some b \<Rightarrow> b < 240)))"

text \<open>\<open>(y * canvas.width + scanX) * 4\<close>\<close>

definition pixelIndex :: "nat \<Rightarrow> int \<Rightarrow> jsnum \<Rightarrow> jsnum" where
  "pixelIndex w scanX y = jmul (jadd (jmul y (Fin (real w))) (Fin (real_of_int scanX))) (Fin 4)"

text \<open>The loop \<open>for (let y = ...; y > chartArea.y0; y--)\<close> from a row \<open>y\<close> on; the result
  is \<open>barTopY\<close>, and \<open>None\<close> when the loop never ends.\<close>

partial_function (option) scanUp :: "nat list \<Rightarrow> nat \<Rightarrow> int \<Rightarrow> real \<Rightarrow> jsnum \<Rightarrow> jsnum option" where
  "scanUp d w scanX areaY0 y =
     (if jgt y (Fin areaY0)
      then (if isDarkPixel d (pixelIndex w scanX y) then Some y
            else scanUp d w scanX areaY0 (jsub y (Fin 1)))
      else Some (Fin (- 1)))"

text \<open>\<open>Math.round(month.bbox.x0 + (i * barWidthGuess) + (barWidthGuess / 2))\<close>\<close>

definition scanXOf :: "OcrWord \<Rightarrow> nat \<Rightarrow> nat \<Rightarrow> int" where
  "scanXOf mw numYears i =
     (let barWidthGuess = (x1 (bbox mw) - x0 (bbox mw)) / real numYears
      in mathRound (x0 (bbox mw) + real i * barWidthGuess + barWidthGuess / 2))"

definition barValue :: "jsnum \<Rightarrow> jsnum \<Rightarrow> jsnum \<Rightarrow> jsnum" where
  "barValue zeroY vpp barTopY =
     (if \<not> jeq barTopY (Fin (- 1)) then jround (jmul (jsub zeroY barTopY) vpp) else Fin 0)"

function showNat :: "nat \<Rightarrow> string" where
  "showNat n = (if n < 10 then [char_of (48 + n)]
                else showNat (n div 10) @ [char_of (48 + n mod 10)])"
  by pat_completeness auto

termination
  by (relation "measure id") auto

text \<open>\<open>years[i] || `Year ${i+1}`\<close>\<close>

definition yearLabel :: "string list \<Rightarrow> nat \<Rightarrow> string" where
  "yearLabel years i =
     (if i < length years \<and> years ! i \<noteq> [] then years ! i else ''Year '' @ showNat (i + 1))"

record YearValue =
  year :: string
  "value" :: jsnum

record MonthUsage =
  month :: string
  usage :: "YearValue list"

record UsageChartData =
  title :: string
  unit :: string
  data :: "MonthUsage list"

text \<open>The loop over the series \<open>i\<close> of one month, from the indices still to do.\<close>

fun scanSeries ::
  "ImageData \<Rightarrow> AxisCalibration \<Rightarrow> string list \<Rightarrow> nat \<Rightarrow> OcrWord \<Rightarrow> nat list
     \<Rightarrow> YearValue list option" where
  "scanSeries img c years numYears mw [] = Some []"
| "scanSeries img c years numYears mw (i # rest) =
     (case scanUp (img_data img) (img_width img) (scanXOf mw numYears i) (yv_y (yMax c))
             (jfloor (zeroLineY c)) of
        None \<Rightarrow> None
      | Some barTopY \<Rightarrow>
          (case scanSeries img c years numYears mw rest of
             None \<Rightarrow> None
           | Some others \<Rightarrow>
               Some (\<lparr> year = yearLabel years i,
                       value = barValue (zeroLineY c) (valuePerPixel c) barTopY \<rparr> # others)))"

text \<open>The loop over \<open>chart.months\<close>.\<close>

fun scanMonths ::
  "ImageData \<Rightarrow> AxisCalibration \<Rightarrow> string list \<Rightarrow> nat \<Rightarrow> OcrWord list
     \<Rightarrow> MonthUsage list option" where
  "scanMonths img c years numYears [] = Some []"
| "scanMonths img c years numYears (mw # rest) =
     (case scanSeries img c years numYears mw [0 ..< numYears] of
        None \<Rightarrow> None
      | Some monthUsage \<Rightarrow>
          (case scanMonths img c years numYears rest of
             None \<Rightarrow> None
           | Some others \<Rightarrow> Some (\<lparr> month = text mw, usage = monthUsage \<rparr> # others)))"

text \<open>\<open>xs.join(' ')\<close>\<close>

fun joinSpace :: "string list \<Rightarrow> string" where
  "joinSpace [] = []"
| "joinSpace [s] = s"
| "joinSpace (s # t # ts) = s @ '' '' @ joinSpace (t # ts)"

definition chartTitle :: "ChartCandidate \<Rightarrow> string" where
  "chartTitle chart =
     (let t = joinSpace (map (\<lambda>r. text (word r)) (cand_title chart))
      in if t \<noteq> [] then t else ''Usage Chart '' @ showNat (cand_id chart))"

definition chartUnit :: "ChartCandidate \<Rightarrow> string" where
  "chartUnit chart =
     (case cand_unit chart of None \<Rightarrow> ''Units''
      | Some u \<Rightarrow> if text (word u) \<noteq> [] then text (word u) else ''Units'')"

text \<open>\<open>detectBarsForChart\<close> on a decoded image. \<open>None\<close>: the call never returns;
  \<open>Some (Inl e)\<close>: it throws \<open>e\<close>; \<open>Some (Inr r)\<close>: it returns \<open>r\<close>.\<close>

definition detectBarsForChart :: "ImageData \<Rightarrow> ChartCandidate \<Rightarrow> (error + UsageChartData) option" where
  "detectBarsForChart img chart =
     (if \<not> img_context img then Some (Inl CanvasContextError)
      else
        (case calibrate (cand_id chart) (yAxis chart) of
           Inl e \<Rightarrow> Some (Inl e)
         | Inr c \<Rightarrow>
             if months chart = [] then Some (Inl TypeError)
             else if img_width img = 0 \<or> img_height img = 0 then Some (Inl IndexSizeError)
             else
               (let years = map (\<lambda>l. text (word l)) (legend chart);
                    numYears = max 1 (length years)
                in case scanMonths img c years numYears (map word (months chart)) of
                     None \<Rightarrow> None
                   | Some usageData \<Rightarrow>
                       Some (Inr \<lparr> title = chartTitle chart, unit = chartUnit chart,
                                   data = usageData \<rparr>))))"

subsection \<open>Calibration and scan loop in binary64\<close>

text \<open>
  Lines 389--402 of \<open>detectBarsForChart\<close> again, from the parsed pairs \<open>{value, y}\<close>
  that are left after the filter (the values are the integers \<open>parseInt\<close> returned, the
  rows are bounding-box centres), with every operation rounded.
\<close>

record AxisCalibration64 =
  yMin64 :: YValue
  yMax64 :: YValue
  pixelRange64 :: jsnum
  valueRange64 :: jsnum
  valuePerPixel64 :: jsnum
  zeroLineY64 :: jsnum

definition calibrate64 :: "nat \<Rightarrow> YValue list \<Rightarrow> error + AxisCalibration64" where
  "calibrate64 chartId parsed =
     (let yValues = sort_key yv_value parsed in
      if length yValues < 2 then Inl (InsufficientYAxisLabels chartId)
      else
        (let mn = hd yValues; mx = last yValues;
             pr = jabs (dsub (Fin (yv_y mn)) (Fin (yv_y mx)));
             vr = dsub (Fin (real_of_int (yv_value mx))) (Fin (real_of_int (yv_value mn)))
         in Inr \<lparr> yMin64 = mn, yMax64 = mx, pixelRange64 = pr, valueRange64 = vr,
                  valuePerPixel64 = ddiv vr pr,
                  zeroLineY64 =
                    (if yv_value mn = 0 then Fin (yv_y mn)
                     else dadd (Fin (yv_y mx))
                            (dmul (ddiv (Fin (real_of_int (yv_value mx))) vr) pr)) \<rparr>))"


text \<open>The scan loop with the arithmetic of the source: the pixel index
  \<open>(y * canvas.width + scanX) * 4\<close>, the two further indices of \<open>isDarkPixel\<close> and the
  step \<open>y--\<close> are rounded. The scan column is any number.\<close>

definition pixelIndex64 :: "nat \<Rightarrow> jsnum \<Rightarrow> jsnum \<Rightarrow> jsnum" where
  "pixelIndex64 w scanX y = dmul (dadd (dmul y (Fin (real w))) scanX) (Fin 4)"

definition isDarkPixel64 :: "nat list \<Rightarrow> jsnum \<Rightarrow> bool" where
  "isDarkPixel64 d index =
     (case readByte d index of None \<Rightarrow> False
      | Some r \<Rightarrow> r < 240 \<and>
          (case readByte d (dadd index (Fin 1)) of None \<Rightarrow> False
           | Some g \<Rightarrow> g < 240 \<and>
               (case readByte d (dadd index (Fin 2)) of None \<Rightarrow> False
                | Some b \<Rightarrow> b < 240)))"

partial_function (option) scanUp64 :: "nat list \<Rightarrow> nat \<Rightarrow> jsnum \<Rightarrow> real \<Rightarrow> jsnum \<Rightarrow> jsnum option" where
  "scanUp64 d w scanX areaY0 y =
     (if jgt y (Fin areaY0)
      then (if isDarkPixel64 d (pixelIndex64 w scanX y) then Some y
            else scanUp64 d w scanX areaY0 (dsub y (Fin 1)))
      else Some (Fin (- 1)))"

text \<open>\<open>Math.round(pixelHeight * valuePerPixel)\<close> if \<open>barTopY !== -1\<close>, and 0 otherwise.\<close>

definition barValue64 :: "jsnum \<Rightarrow> jsnum \<Rightarrow> jsnum \<Rightarrow> jsnum" where
  "barValue64 zeroY vpp barTopY =
     (if \<not> jeq barTopY (Fin (- 1)) then jround (dmul (dsub zeroY barTopY) vpp) else Fin 0)"

text \<open>The value pushed for one slot: the scan from \<open>Math.floor(zeroLineY)\<close>, then the
  value of its result; \<open>None\<close> when the scan never ends.\<close>

definition scanSlot64 :: "nat list \<Rightarrow> nat \<Rightarrow> jsnum \<Rightarrow> real \<Rightarrow> jsnum \<Rightarrow> jsnum \<Rightarrow> jsnum option" where
  "scanSlot64 d w scanX areaY0 zeroY vpp =
     map_option (barValue64 zeroY vpp) (scanUp64 d w scanX areaY0 (jfloor zeroY))"

subsection \<open>The exported function\<close>

text \<open>The page of the OCR engine; a missing array is \<open>None\<close>.\<close>

record Line =
  line_words :: "OcrWord list option"

record Paragraph =
  par_lines :: "Line list option"

record Block =
  block_paragraphs :: "Paragraph list option"

record Page =
  blocks :: "Block list option"

definition orEmpty :: "'a list option \<Rightarrow> 'a list" where
  "orEmpty xs = (case xs of None \<Rightarrow> [] | Some ys \<Rightarrow> ys)"

definition pageWords :: "Page \<Rightarrow> OcrWord list" where
  "pageWords pg =
     concat (map (\<lambda>b. concat (map (\<lambda>p. concat (map (\<lambda>l. orEmpty (line_words l))
                                                     (orEmpty (par_lines p))))
                                  (orEmpty (block_paragraphs b))))
                 (orEmpty (blocks pg)))"

text \<open>The OCR engine as the function meets it: whether \<open>createWorker\<close>,
  \<open>worker.recognize\<close> and \<open>worker.terminate\<close> reject, and the page recognised.\<close>

record Engine =
  createWorker :: "error option"
  recognize :: "error + Page"
  terminate :: "error option"

text \<open>The loop of pass 3, with its \<open>try\<close>/\<open>catch\<close> around each candidate.\<close>

fun processCandidates :: "ImageData \<Rightarrow> ChartCandidate list \<Rightarrow> UsageChartData list option" where
  "processCandidates img [] = Some []"
| "processCandidates img (candidate # rest) =
     (case detectBarsForChart img candidate of
        None \<Rightarrow> None
      | Some (Inl e) \<Rightarrow> processCandidates img rest
      | Some (Inr chartData) \<Rightarrow>
          (case processCandidates img rest of
             None \<Rightarrow> None
           | Some others \<Rightarrow> Some (chartData # others)))"

text \<open>The body of the outer \<open>try\<close>, with its \<open>catch\<close>.\<close>

definition processChartBody :: "Engine \<Rightarrow> ImageData \<Rightarrow> UsageChartData list option" where
  "processChartBody eng img =
     (case recognize eng of
        Inl e \<Rightarrow> Some []
      | Inr pg \<Rightarrow>
          (let candidates = findChartCandidates (pageWords pg)
           in if candidates = [] then Some [] else processCandidates img candidates))"

text \<open>\<open>processChart\<close>. \<open>None\<close>: the promise never settles; \<open>Some (Inl e)\<close>: it rejects with
  \<open>e\<close>; \<open>Some (Inr cs)\<close>: it resolves to \<open>cs\<close>.\<close>

definition processChart :: "Engine \<Rightarrow> ImageData \<Rightarrow> (error + UsageChartData list) option" where
  "processChart eng img =
     (case createWorker eng of
        Some e \<Rightarrow> Some (Inl e)
      | None \<Rightarrow>
          (case processChartBody eng img of
             None \<Rightarrow> None
           | Some charts \<Rightarrow>
               (case terminate eng of
                  Some e \<Rightarrow> Some (Inl e)
                | None \<Rightarrow> Some (Inr charts))))"

subsection \<open>Notions used to state the properties\<close>

text \<open>\<open>numYears\<close> of \<open>detectBarsForChart\<close>: \<open>Math.max(1, years.length)\<close>.\<close>

definition numYearsOf :: "ChartCandidate \<Rightarrow> nat" where
  "numYearsOf chart = max 1 (length (legend chart))"

text \<open>The rows the loop visits in a column where it meets no dark pixel, from the first.\<close>

definition scanRows :: "real \<Rightarrow> jsnum \<Rightarrow> int list" where
  "scanRows areaY0 zeroY = (case zeroY of Fin z \<Rightarrow> rev [\<lfloor>areaY0\<rfloor> + 1 .. \<lfloor>z\<rfloor>] | _ \<Rightarrow> [])"

text \<open>The column \<open>scanX\<close> holds no dark pixel on the rows the loop visits.\<close>

definition blankColumn :: "nat list \<Rightarrow> nat \<Rightarrow> int \<Rightarrow> real \<Rightarrow> jsnum \<Rightarrow> bool" where
  "blankColumn d w scanX areaY0 zeroY =
     list_all (\<lambda>j. \<not> isDarkPixel d (pixelIndex w scanX (Fin (real_of_int j)))) (scanRows areaY0 zeroY)"

text \<open>The same two notions for the scan loop in binary64.\<close>

definition blankColumn64 :: "nat list \<Rightarrow> nat \<Rightarrow> jsnum \<Rightarrow> real \<Rightarrow> jsnum \<Rightarrow> bool" where
  "blankColumn64 d w scanX areaY0 zeroY =
     list_all (\<lambda>j. \<not> isDarkPixel64 d (pixelIndex64 w scanX (Fin (real_of_int j)))) (scanRows areaY0 zeroY)"

definition readsInside64 :: "nat list \<Rightarrow> nat \<Rightarrow> jsnum \<Rightarrow> real \<Rightarrow> jsnum \<Rightarrow> bool" where
  "readsInside64 d w scanX areaY0 zeroY =
     list_all (\<lambda>j. readByte d (pixelIndex64 w scanX (Fin (real_of_int j))) \<noteq> None
                \<and> readByte d (dadd (pixelIndex64 w scanX (Fin (real_of_int j))) (Fin 1)) \<noteq> None
                \<and> readByte d (dadd (pixelIndex64 w scanX (Fin (real_of_int j))) (Fin 2)) \<noteq> None)
              (scanRows areaY0 zeroY)"

text \<open>The rows the loop visits lie between \<open>-2\<^sup>5\<^sup>3\<close> and \<open>2\<^sup>5\<^sup>3\<close>, where \<open>y--\<close> is exact
  (or the loop visits no row at all).\<close>

definition exactRows :: "real \<Rightarrow> jsnum \<Rightarrow> bool" where
  "exactRows areaY0 zeroY =
     (case zeroY of
        Fin z \<Rightarrow> \<lfloor>z\<rfloor> \<le> \<lfloor>areaY0\<rfloor> \<or> (- (2 ^ 53) \<le> \<lfloor>areaY0\<rfloor> \<and> \<lfloor>z\<rfloor> \<le> 2 ^ 53)
      | PosInf \<Rightarrow> False
      | _ \<Rightarrow> True)"


text \<open>The entry pushed for series \<open>i\<close> of a month, when its scan returns.\<close>

definition slotValue :: "ImageData \<Rightarrow> AxisCalibration \<Rightarrow> string list \<Rightarrow> nat \<Rightarrow> OcrWord \<Rightarrow> nat \<Rightarrow> YearValue" where
  "slotValue img c years numYears mw i =
     \<lparr> year = yearLabel years i,
       value = barValue (zeroLineY c) (valuePerPixel c)
                 (the (scanUp (img_data img) (img_width img) (scanXOf mw numYears i) (yv_y (yMax c))
                         (jfloor (zeroLineY c)))) \<rparr>"






subsection \<open>Concrete inputs\<close>

text \<open>A page of the given size, every byte 255, decoded with a context.\<close>

definition white_page :: "nat \<Rightarrow> nat \<Rightarrow> ImageData" where
  "white_page w h = \<lparr> img_width = w, img_height = h, img_data = replicate (4 * w * h) 255,
                       img_context = True \<rparr>"

text \<open>Two y-axis labels (\<open>lo\<close> at the centre row 30, \<open>hi\<close> at the centre row 10) to
  the left of a row of four month words, and the candidate the finder returns for them.\<close>

definition chart_page :: "string \<Rightarrow> string \<Rightarrow> OcrWord list" where
  "chart_page lo hi = [mkWord lo 10 25 30 35, mkWord hi 10 5 30 15,
     mkWord ''Jan'' 35 55 55 65, mkWord ''Feb'' 60 55 80 65,
     mkWord ''Mar'' 85 55 105 65, mkWord ''Apr'' 110 55 130 65]"

definition chart_of :: "string \<Rightarrow> string \<Rightarrow> ChartCandidate" where
  "chart_of lo hi =
     \<lparr> cand_id = 0,
       months = [(2, mkWord ''Jan'' 35 55 55 65), (3, mkWord ''Feb'' 60 55 80 65),
                 (4, mkWord ''Mar'' 85 55 105 65), (5, mkWord ''Apr'' 110 55 130 65)],
       yAxis = [(0, mkWord lo 10 25 30 35), (1, mkWord hi 10 5 30 15)],
       legend = [], cand_title = [], cand_unit = None,
       bounds = \<lparr> x0 = 10, y0 = 5, x1 = 130, y1 = 60 \<rparr> \<rparr>"

text \<open>Two rows of month words, nine pixels apart at the word \<open>Mar\<close>, right of two
  y-axis labels.\<close>

definition overlap_words :: "OcrWord list" where
  "overlap_words =
     [mkWord ''0'' 85 295 95 305, mkWord ''100'' 85 95 95 105,
      mkWord ''Jan'' 100 395 120 405, mkWord ''Feb'' 105 413 125 423,
      mkWord ''Mar'' 130 404 150 414, mkWord ''Apr'' 160 395 180 405,
      mkWord ''May'' 190 395 210 405, mkWord ''Jun'' 220 413 240 423,
      mkWord ''Jul'' 250 413 270 423]"


text \<open>Axis labels alone: \<open>100\<close> and \<open>500\<close> at the centre rows 300 and 100.\<close>

definition axis_100_500 :: "WordRef list" where
  "axis_100_500 = [(0, mkWord ''100'' 10 295 30 305), (1, mkWord ''500'' 10 95 30 105)]"

text \<open>The calibration computed for this input.\<close>

definition cal_100_500 :: AxisCalibration where
  "cal_100_500 = \<lparr> yMin = \<lparr>yv_value = 100, yv_y = 300\<rparr>, yMax = \<lparr>yv_value = 500, yv_y = 100\<rparr>,
        pixelRange = 200, valueRange = 400, valuePerPixel = Fin 2, zeroLineY = Fin 350 \<rparr>"

text \<open>A calibration in binary64 with finite entries.\<close>

definition cal64 :: "int \<Rightarrow> real \<Rightarrow> int \<Rightarrow> real \<Rightarrow> real \<Rightarrow> real \<Rightarrow> real \<Rightarrow> real \<Rightarrow> AxisCalibration64" where
  "cal64 vmin ymin vmax ymax pr vr vpp z =
     \<lparr> yMin64 = \<lparr>yv_value = vmin, yv_y = ymin\<rparr>, yMax64 = \<lparr>yv_value = vmax, yv_y = ymax\<rparr>,
       pixelRange64 = Fin pr, valueRange64 = Fin vr, valuePerPixel64 = Fin vpp, zeroLineY64 = Fin z \<rparr>"

section \<open>Properties of the word classifier\<close>


lemma codeUnit_char_of: "n < 256 \<Longrightarrow> codeUnit (char_of n) = n"
  by (simp add: codeUnit_def)

lemma codeUnit_lt: "codeUnit c < 256"
  by (simp add: codeUnit_def)

lemma lowerChar_ne_C2: "lowerChar c \<noteq> CHR 0xC2"
proof
  assume "lowerChar c = CHR 0xC2"
  then have "codeUnit (lowerChar c) = 194"
    by (simp add: codeUnit_def)
  then show False
    using codeUnit_lt [of c]
    by (auto simp: lowerChar_def Let_def codeUnit_char_of split: if_splits)
qed

text \<open>No text lower-cases to the second entry of the vocabulary, which holds a capital
  letter: \<open>isUnit\<close> accepts the spellings of \<open>kwh\<close> and \<open>therms\<close> and nothing else.\<close>

lemma isUnit_iff:
  "isUnit w = (toLowerCase (text w) = ''kwh'' \<or> toLowerCase (text w) = ''therms'')"
proof -
  have "toLowerCase (text w) \<noteq> [CHR ''m'', CHR 0xC2, CHR 0xB3]"
  proof
    assume "toLowerCase (text w) = [CHR ''m'', CHR 0xC2, CHR 0xB3]"
    then have "CHR 0xC2 \<in> set (map lowerChar (text w))"
      by (simp add: toLowerCase_def)
    then obtain x where "lowerChar x = CHR 0xC2"
      by auto
    then show False
      using lowerChar_ne_C2 by blast
  qed
  then show ?thesis
    by (auto simp: isUnit_def UNITS_def)
qed



text \<open>
  C9 at the word \<open>m\<^sup>3\<close> (the code units \<open>m\<close>, U+00B3), in lower and in upper case:
  \<open>isUnit\<close> answers false, while it accepts \<open>kWh\<close>.
\<close>

theorem isUnit_cubic_metre_rejected:
  "\<not> isUnit (mkWord [CHR ''m'', CHR 0xB3] 0 0 1 1)
   \<and> \<not> isUnit (mkWord [CHR ''M'', CHR 0xB3] 0 0 1 1)
   \<and> isUnit (mkWord ''kWh'' 0 0 1 1)"
  by code_simp

text \<open>On texts within U+0000..U+00FF the two classifications agree.\<close>

lemma latinOfUnit_codeUnit:
  "latinOfUnit (codeUnit c) = map codeUnit (filter isLowerAZ [lowerChar c])"
  using codeUnit_lt[of c]
  by (auto simp: latinOfUnit_def isLowerAZ_def lowerChar_def Let_def codeUnit_char_of)

lemma cleanTextU_codeUnit: "cleanTextU (map codeUnit s) = map codeUnit (cleanText s)"
proof (induction s)
  case Nil
  show ?case by (simp add: cleanTextU_def cleanText_def toLowerCase_def)
next
  case (Cons c s)
  have "cleanTextU (map codeUnit (c # s)) = latinOfUnit (codeUnit c) @ cleanTextU (map codeUnit s)"
    by (simp add: cleanTextU_def)
  also have "\<dots> = map codeUnit (filter isLowerAZ [lowerChar c]) @ map codeUnit (cleanText s)"
    by (simp only: latinOfUnit_codeUnit Cons.IH)
  also have "\<dots> = map codeUnit (cleanText (c # s))"
    by (simp add: cleanText_def toLowerCase_def)
  finally show ?case .
qed

lemma codeUnit_inj: "inj codeUnit"
  by (simp add: inj_on_def codeUnit_def)

lemma isMonthU_codeUnit: "isMonthU (map codeUnit (text w)) = isMonth w"
proof -
  have "(take (length (cleanText (text w))) (map codeUnit m) = map codeUnit (cleanText (text w)))
        = startsWith m (cleanText (text w))" for m
  proof -
    have "take (length (cleanText (text w))) (map codeUnit m)
          = map codeUnit (take (length (cleanText (text w))) m)"
      by (simp add: take_map)
    then show ?thesis
      by (simp only: startsWith_def inj_map_eq_map[OF codeUnit_inj])
  qed
  then show ?thesis
    by (simp add: isMonthU_def isMonth_def cleanTextU_codeUnit)
qed

lemma cleanTextU_empty:
  "\<forall>u\<in>set t. \<not> isLatinLetterU u \<and> u \<noteq> 0x130 \<and> u \<noteq> 0x212A \<Longrightarrow> cleanTextU t = []"
  by (induction t) (auto simp: cleanTextU_def latinOfUnit_def isLatinLetterU_def)

text \<open>
  C10. A word whose text holds no Latin letter (A--Z, a--z), no capital I with dot above
  (U+0130) and no Kelvin sign (U+212A) has the empty alphabetic-only lower-case form, and
  \<open>isMonth\<close> classifies it as a month label.
\<close>

theorem isMonthU_without_letters:
  "\<forall>u\<in>set t. \<not> isLatinLetterU u \<and> u \<noteq> 0x130 \<and> u \<noteq> 0x212A
     \<Longrightarrow> cleanTextU t = [] \<and> isMonthU t"
proof -
  assume a: "\<forall>u\<in>set t. \<not> isLatinLetterU u \<and> u \<noteq> 0x130 \<and> u \<noteq> 0x212A"
  have e: "cleanTextU t = []" using a by (rule cleanTextU_empty)
  then have "isMonthU t" by (simp add: isMonthU_def MONTHS_def)
  with e show ?thesis by simp
qed

text \<open>The word \<open>1,200\<close> is such a word.\<close>

theorem isMonthU_without_letters_witness:
  "cleanTextU (map codeUnit ''1,200'') = [] \<and> isMonthU (map codeUnit ''1,200'')
   \<and> isMonth (mkWord ''1,200'' 0 0 1 1)"
proof -
  have "\<forall>u\<in>set (map codeUnit ''1,200''). \<not> isLatinLetterU u \<and> u \<noteq> 0x130 \<and> u \<noteq> 0x212A"
    by code_simp
  from isMonthU_without_letters[OF this] isMonthU_codeUnit[of "mkWord ''1,200'' 0 0 1 1"]
  show ?thesis by (simp add: mkWord_def)
qed

text \<open>
  The texts of the single code unit U+212A and of the single code unit U+0130 hold no
  Latin letter; their forms are \<open>k\<close> and \<open>i\<close>, which start no month abbreviation, and
  \<open>isMonth\<close> answers false. A text of capitals only holds no letter a--z, and \<open>XYZ\<close> is
  no month word either.
\<close>

theorem isMonthU_kelvin_counterexample:
  "\<not> isLatinLetterU 0x212A \<and> cleanTextU [0x212A] = map codeUnit ''k'' \<and> \<not> isMonthU [0x212A]
   \<and> \<not> isLatinLetterU 0x130 \<and> cleanTextU [0x130] = map codeUnit ''i'' \<and> \<not> isMonthU [0x130]
   \<and> list_all (\<lambda>u. \<not> (97 \<le> u \<and> u \<le> 122)) (map codeUnit ''XYZ'')
   \<and> cleanTextU (map codeUnit ''XYZ'') = map codeUnit ''xyz'' \<and> \<not> isMonthU (map codeUnit ''XYZ'')"
  by code_simp

section \<open>Properties of the binary64 rounding\<close>

lemma roundHalfEven_int [simp]: "roundHalfEven (real_of_int n) = n"
  by (simp add: roundHalfEven_def)


lemma floor_log2_eq:
  assumes "2 powi k \<le> x" and "x < 2 powi (k + 1)"
  shows "\<lfloor>log 2 x\<rfloor> = k"
proof -
  have x: "0 < x" using assms(1) by (smt (verit) zero_less_power_int)
  have a: "(2::real) powr real_of_int k = 2 powi k"
    by (simp add: powr_real_of_int')
  have "(2::real) powr real_of_int (k + 1) = 2 powi (k + 1)"
    by (rule powr_real_of_int') simp_all
  then have b: "(2::real) powr (real_of_int k + 1) = 2 powi (k + 1)"
    by simp
  have "2 powr real_of_int k \<le> x \<and> x < 2 powr (real_of_int k + 1)"
    using assms unfolding a b by simp
  then show ?thesis using floor_log_eq_powr_iff[OF x, of 2 k] by simp
qed

lemma ulpExp_eq:
  assumes "2 powi k \<le> \<bar>x\<bar>" and "\<bar>x\<bar> < 2 powi (k + 1)" and "- 1022 \<le> k"
  shows "ulpExp x = k - 52"
  using floor_log2_eq[OF assms(1,2)] assms(3) by (simp add: ulpExp_def)

text \<open>Evaluation of \<open>fl\<close> at a number of known binary exponent.\<close>

lemma fl_eval:
  assumes "2 powi k \<le> \<bar>x\<bar>" and "\<bar>x\<bar> < 2 powi (k + 1)" and "- 1022 \<le> k"
    and "roundHalfEven (x / 2 powi (k - 52)) = m"
    and "\<bar>real_of_int m\<bar> * 2 powi (k - 52) < 2 ^ 1024"
  shows "fl x = Fin (real_of_int m * 2 powi (k - 52))"
proof -
  have "x \<noteq> 0" using assms(1) by (smt (verit) zero_less_power_int abs_zero)
  then show ?thesis
    using assms(4,5) by (simp add: fl_def ulpExp_eq[OF assms(1-3)] Let_def)
qed



lemma floor_log_less:
  assumes "0 < x" and "x < 2 powi k"
  shows "\<lfloor>log 2 x\<rfloor> < k"
proof -
  have "x < 2 powr real_of_int k" using assms(2) by (simp add: powr_real_of_int')
  then have "log 2 x < real_of_int k" using assms(1) by (simp add: log_less_iff)
  then show ?thesis by (simp add: floor_less_iff)
qed

lemma ulpExp_le:
  assumes "0 < \<bar>x\<bar>" and "\<bar>x\<bar> < 2 powi (e + 53)" and "- 1074 \<le> e"
  shows "ulpExp x \<le> e"
  using floor_log_less[OF assms(1,2)] assms(3) by (simp add: ulpExp_def)


text \<open>A number \<open>m * 2\<^sup>e\<close> with \<open>|m| < 2\<^sup>5\<^sup>3\<close> and \<open>-1074 \<le> e\<close>, below the overflow
  threshold, is a double; so is every integer up to \<open>2\<^sup>5\<^sup>3\<close> in absolute value.\<close>

lemma fl_exact:
  assumes "\<bar>m\<bar> < 2 ^ 53" and "- 1074 \<le> e" and "\<bar>real_of_int m * 2 powi e\<bar> < 2 ^ 1024"
  shows "fl (real_of_int m * 2 powi e) = Fin (real_of_int m * 2 powi e)"
proof (cases "m = 0")
  case True
  then show ?thesis by (simp add: fl_def)
next
  case False
  define x where "x = real_of_int m * 2 powi e"
  have x0: "x \<noteq> 0" using False by (simp add: x_def)
  have "\<bar>x\<bar> = real_of_int \<bar>m\<bar> * 2 powi e" by (simp add: x_def abs_mult)
  also have "\<dots> < 2 ^ 53 * 2 powi e"
  proof (rule mult_strict_right_mono)
    have "real_of_int \<bar>m\<bar> < real_of_int (2 ^ 53)" using assms(1) by (simp only: of_int_less_iff)
    then show "real_of_int \<bar>m\<bar> < 2 ^ 53" by simp
  qed simp
  also have "\<dots> = 2 powi (e + 53)" by (simp add: power_int_add)
  finally have lt: "\<bar>x\<bar> < 2 powi (e + 53)" .
  have le: "ulpExp x \<le> e" using ulpExp_le[OF _ lt assms(2)] x0 by simp
  define j where "j = nat (e - ulpExp x)"
  have e: "e = ulpExp x + int j" using le by (simp add: j_def)
  have r: "2 powi e / 2 powi ulpExp x = (2::real) ^ j"
    by (subst e) (simp add: power_int_add)
  have "x / 2 powi ulpExp x = real_of_int m * (2 powi e / 2 powi ulpExp x)"
    by (simp add: x_def)
  then have q: "x / 2 powi ulpExp x = real_of_int (m * 2 ^ j)"
    unfolding r by simp
  have rq: "roundHalfEven (x / 2 powi ulpExp x) = m * 2 ^ j"
    by (simp only: q roundHalfEven_int)
  have again: "real_of_int (m * 2 ^ j) * 2 powi ulpExp x = x"
    using q by (simp add: field_simps)
  have "\<bar>x\<bar> = \<bar>real_of_int (m * 2 ^ j) * 2 powi ulpExp x\<bar>"
    by (simp only: again)
  also have "\<dots> = \<bar>real_of_int (m * 2 ^ j)\<bar> * 2 powi ulpExp x"
    by (simp add: abs_mult)
  finally have ab: "\<bar>real_of_int (m * 2 ^ j)\<bar> * 2 powi ulpExp x = \<bar>x\<bar>" by simp
  have "fl x = (if 2 ^ 1024 \<le> \<bar>real_of_int (m * 2 ^ j)\<bar> * 2 powi ulpExp x
                then (if 0 < x then PosInf else NegInf)
                else Fin (real_of_int (m * 2 ^ j) * 2 powi ulpExp x))"
    using x0 by (simp add: fl_def Let_def rq)
  also have "\<dots> = Fin x"
    unfolding ab again using assms(3) by (simp add: x_def)
  finally have "fl x = Fin x" .
  then show ?thesis by (simp add: x_def)
qed

lemma fl_int:
  assumes "\<bar>n\<bar> \<le> 2 ^ 53"
  shows "fl (real_of_int n) = Fin (real_of_int n)"
proof (cases "\<bar>n\<bar> < 2 ^ 53")
  case True
  have "\<bar>real_of_int n\<bar> = real_of_int \<bar>n\<bar>" by simp
  also have "\<dots> < real_of_int (2 ^ 53)" using True by (simp only: of_int_less_iff)
  also have "\<dots> < 2 ^ 1024" by simp
  finally show ?thesis using fl_exact[OF True, of 0] by simp
next
  case False
  then have "n = 2 ^ 53 \<or> n = - (2 ^ 53)" using assms by linarith
  then obtain m :: int where m: "\<bar>m\<bar> < 2 ^ 53" "real_of_int n = real_of_int m * 2 powi 1"
    by (auto intro: that[of "2 ^ 52"] that[of "- (2 ^ 52)"])
  have "\<bar>real_of_int m * 2 powi 1\<bar> < 2 ^ 1024"
    using m(1) by (simp add: abs_mult)
  from fl_exact[OF m(1) _ this] show ?thesis by (simp add: m(2))
qed




text \<open>Values of \<open>fl\<close> used at the concrete inputs.\<close>

lemma fl_zero [simp]: "fl 0 = Fin 0"
  by (simp add: fl_def)

lemma fl_one [simp]: "fl 1 = Fin 1"
  using fl_int[of 1] by simp

lemma fl_numeral [simp]: "(numeral k :: int) \<le> 2 ^ 53 \<Longrightarrow> fl (numeral k) = Fin (numeral k)"
  using fl_int[of "numeral k"] by simp

lemma fl_neg_numeral [simp]: "(numeral k :: int) \<le> 2 ^ 53 \<Longrightarrow> fl (- numeral k) = Fin (- numeral k)"
  using fl_int[of "- numeral k"] by simp


lemma fl_5_4 [simp]: "fl (5 / 4) = Fin (5 / 4)"
  using fl_exact[of 5 "- 2"] by simp

lemma fl_1_4 [simp]: "fl (1 / 4) = Fin (1 / 4)"
  using fl_exact[of 1 "- 2"] by simp

lemma fl_2_56 [simp]: "fl 72057594037927936 = Fin 72057594037927936"
  using fl_exact[of 1 56] by simp

lemma fl_2_56_16 [simp]: "fl 72057594037927952 = Fin 72057594037927952"
  using fl_exact[of "2 ^ 52 + 1" 4] by simp

lemma fl_7_200: "fl (7 / 200) = Fin (5044031582654956 / 2 ^ 57)"
  using fl_eval[of "- 5" "7 / 200" 5044031582654956]
  by (simp add: roundHalfEven_def)

lemma fl_big: "fl (2 ^ 56 + 15) = Fin (2 ^ 56 + 16)"
  using fl_eval[of 56 "2 ^ 56 + 15" "2 ^ 52 + 1"]
  by (simp add: roundHalfEven_def)

lemma fl_2_56_15 [simp]: "fl 72057594037927951 = Fin 72057594037927952"
  using fl_big by simp

lemma fl_7_200' [simp]: "fl (7 / 200) = Fin (1261007895663739 / 36028797018963968)"
  using fl_7_200 by simp

lemma fl_7_eps [simp]:
  "fl (31525197391593475 / 4503599627370496) = Fin (7881299347898369 / 1125899906842624)"
  using fl_eval[of 2 "31525197391593475 / 4503599627370496" 7881299347898369]
  by (simp add: roundHalfEven_def)


section \<open>Properties of the axis calibration\<close>

lemma yValuesOf_sorted: "sorted (map yv_value (yValuesOf ys))"
  by (simp add: yValuesOf_def)

lemma sorted_hd_le:
  fixes xs :: "'a list" and f :: "'a \<Rightarrow> int"
  shows "sorted (map f xs) \<Longrightarrow> v \<in> set xs \<Longrightarrow> f (hd xs) \<le> f v"
  by (cases xs) auto

lemma sorted_le_last:
  fixes xs :: "'a list" and f :: "'a \<Rightarrow> int"
  shows "sorted (map f xs) \<Longrightarrow> v \<in> set xs \<Longrightarrow> f v \<le> f (last xs)"
  by (induction xs) (auto split: if_splits)

lemma calibrate_ok:
  assumes "2 \<le> length (yValuesOf ys)"
  shows "calibrate n ys =
     Inr \<lparr> yMin = hd (yValuesOf ys), yMax = last (yValuesOf ys),
            pixelRange = \<bar>yv_y (hd (yValuesOf ys)) - yv_y (last (yValuesOf ys))\<bar>,
            valueRange = real_of_int (yv_value (last (yValuesOf ys)) - yv_value (hd (yValuesOf ys))),
            valuePerPixel = jdiv (Fin (real_of_int (yv_value (last (yValuesOf ys)) - yv_value (hd (yValuesOf ys)))))
                                 (Fin \<bar>yv_y (hd (yValuesOf ys)) - yv_y (last (yValuesOf ys))\<bar>),
            zeroLineY = (if yv_value (hd (yValuesOf ys)) = 0 then Fin (yv_y (hd (yValuesOf ys)))
               else jadd (Fin (yv_y (last (yValuesOf ys))))
                      (jmul (jdiv (Fin (real_of_int (yv_value (last (yValuesOf ys)))))
                                  (Fin (real_of_int (yv_value (last (yValuesOf ys)) - yv_value (hd (yValuesOf ys))))))
                            (Fin \<bar>yv_y (hd (yValuesOf ys)) - yv_y (last (yValuesOf ys))\<bar>))) \<rparr>"
  using assms by (simp add: calibrate_def Let_def)

lemma calibrate_length:
  assumes "calibrate n ys = Inr c"
  shows "2 \<le> length (yValuesOf ys)"
proof (rule ccontr)
  assume "\<not> 2 \<le> length (yValuesOf ys)"
  then have "calibrate n ys = Inl (InsufficientYAxisLabels n)"
    by (simp add: calibrate_def)
  with assms show False by simp
qed

lemma calibrate_fields:
  assumes "calibrate n ys = Inr c"
  shows "yMin c = hd (yValuesOf ys)" and "yMax c = last (yValuesOf ys)"
    and "pixelRange c = \<bar>yv_y (yMin c) - yv_y (yMax c)\<bar>"
    and "valueRange c = real_of_int (yv_value (yMax c) - yv_value (yMin c))"
    and "valuePerPixel c = jdiv (Fin (valueRange c)) (Fin (pixelRange c))"
    and "zeroLineY c = (if yv_value (yMin c) = 0 then Fin (yv_y (yMin c))
               else jadd (Fin (yv_y (yMax c)))
                      (jmul (jdiv (Fin (real_of_int (yv_value (yMax c)))) (Fin (valueRange c)))
                            (Fin (pixelRange c))))"
proof -
  note eq = calibrate_ok [OF calibrate_length [OF assms], of n]
  from assms eq have c: "c = \<lparr> yMin = hd (yValuesOf ys), yMax = last (yValuesOf ys),
            pixelRange = \<bar>yv_y (hd (yValuesOf ys)) - yv_y (last (yValuesOf ys))\<bar>,
            valueRange = real_of_int (yv_value (last (yValuesOf ys)) - yv_value (hd (yValuesOf ys))),
            valuePerPixel = jdiv (Fin (real_of_int (yv_value (last (yValuesOf ys)) - yv_value (hd (yValuesOf ys)))))
                                 (Fin \<bar>yv_y (hd (yValuesOf ys)) - yv_y (last (yValuesOf ys))\<bar>),
            zeroLineY = (if yv_value (hd (yValuesOf ys)) = 0 then Fin (yv_y (hd (yValuesOf ys)))
               else jadd (Fin (yv_y (last (yValuesOf ys))))
                      (jmul (jdiv (Fin (real_of_int (yv_value (last (yValuesOf ys)))))
                                  (Fin (real_of_int (yv_value (last (yValuesOf ys)) - yv_value (hd (yValuesOf ys))))))
                            (Fin \<bar>yv_y (hd (yValuesOf ys)) - yv_y (last (yValuesOf ys))\<bar>))) \<rparr>"
    by simp
  show "yMin c = hd (yValuesOf ys)" by (subst c) simp
  show "yMax c = last (yValuesOf ys)" by (subst c) simp
  show "pixelRange c = \<bar>yv_y (yMin c) - yv_y (yMax c)\<bar>" by (subst (1 2 3) c) simp
  show "valueRange c = real_of_int (yv_value (yMax c) - yv_value (yMin c))" by (subst (1 2 3) c) simp
  show "valuePerPixel c = jdiv (Fin (valueRange c)) (Fin (pixelRange c))" by (subst (1 2 3) c) simp
  show "zeroLineY c = (if yv_value (yMin c) = 0 then Fin (yv_y (yMin c))
               else jadd (Fin (yv_y (yMax c)))
                      (jmul (jdiv (Fin (real_of_int (yv_value (yMax c)))) (Fin (valueRange c)))
                            (Fin (pixelRange c))))"
    by (subst (1 2 3 4 5 6 7) c) simp
qed

lemma calibrate_error_iff:
  "(calibrate n ys = Inl e) = (length (yValuesOf ys) < 2 \<and> e = InsufficientYAxisLabels n)"
  by (auto simp: calibrate_def Let_def)

lemma calibrate_min_max:
  assumes "calibrate n ys = Inr c" and "v \<in> set (yValuesOf ys)"
  shows "yv_value (yMin c) \<le> yv_value v \<and> yv_value v \<le> yv_value (yMax c)"
  using calibrate_fields(1,2)[OF assms(1)] assms(2) yValuesOf_sorted[of ys]
  by (simp add: sorted_hd_le sorted_le_last)

lemma calibrate_members:
  assumes "calibrate n ys = Inr c"
  shows "yMin c \<in> set (yValuesOf ys) \<and> yMax c \<in> set (yValuesOf ys)"
proof -
  from calibrate_length[OF assms] have "yValuesOf ys \<noteq> []" by auto
  then show ?thesis using calibrate_fields(1,2)[OF assms] by simp
qed

lemma zero_rule_core:
  assumes c: "calibrate n ys = Inr c" and nz: "yv_value (yMin c) \<noteq> 0"
  shows "zeroLineY c = jadd (Fin (yv_y (yMax c))) (jdiv (Fin (real_of_int (yv_value (yMax c)))) (valuePerPixel c))"
proof -
  define V where "V = real_of_int (yv_value (yMax c))"
  define R where "R = valueRange c"
  define P where "P = pixelRange c"
  have P: "0 \<le> P" using calibrate_fields(3)[OF c] by (simp add: P_def)
  have Rz: "R = 0 \<Longrightarrow> V \<noteq> 0"
    using calibrate_fields(4)[OF c] nz by (simp add: R_def V_def)
  have z: "zeroLineY c = jadd (Fin (yv_y (yMax c))) (jmul (jdiv (Fin V) (Fin R)) (Fin P))"
    using calibrate_fields(6)[OF c] nz by (simp add: V_def R_def P_def)
  have vpp: "valuePerPixel c = jdiv (Fin R) (Fin P)"
    using calibrate_fields(5)[OF c] by (simp add: R_def P_def)
  have "jmul (jdiv (Fin V) (Fin R)) (Fin P) = jdiv (Fin V) (jdiv (Fin R) (Fin P))"
  proof (cases "R = 0")
    case True
    note R0 = this
    with Rz have V: "V \<noteq> 0" by simp
    show ?thesis
    proof (cases "P = 0")
      case True
      with R0 V show ?thesis by (simp add: sgn_if)
    next
      case False
      with P have "0 < P" by simp
      with R0 V show ?thesis by (simp add: sgn_if)
    qed
  next
    case False
    note R1 = this
    show ?thesis
    proof (cases "P = 0")
      case True
      with R1 show ?thesis by (simp add: sgn_if)
    next
      case False
      with R1 show ?thesis by simp
    qed
  qed
  then show ?thesis by (simp add: z vpp V_def)
qed










lemma cal64_400_500:
  "calibrate64 0 [\<lparr>yv_value = 400, yv_y = 30\<rparr>, \<lparr>yv_value = 500, yv_y = 10\<rparr>]
     = Inr (cal64 400 30 500 10 20 100 5 110)"
  by (simp add: calibrate64_def cal64_def dsub_def dadd_def dmul_def ddiv_def jsub_def)

lemma cal64_0_500:
  "calibrate64 0 [\<lparr>yv_value = 0, yv_y = 30\<rparr>, \<lparr>yv_value = 500, yv_y = 10\<rparr>]
     = Inr (cal64 0 30 500 10 20 500 25 30)"
  by (simp add: calibrate64_def cal64_def dsub_def dadd_def dmul_def ddiv_def jsub_def)

lemma cal64_huge:
  "calibrate64 0 [\<lparr>yv_value = 18014398509481984, yv_y = 16\<rparr>, \<lparr>yv_value = 18014398509481980, yv_y = 32\<rparr>]
     = Inr (cal64 18014398509481980 32 18014398509481984 16 16 4 (1 / 4) 72057594037927952)"
  by (simp add: calibrate64_def cal64_def dsub_def dadd_def dmul_def ddiv_def jsub_def)





text \<open>
  C2, as the code has it. For the labels \<open>100\<close> at row 300 and \<open>500\<close> at row 100 the
  zero line is the row 350 (below row 300). Whenever the calibration succeeds,
  \<open>zeroLineY = pixelAtMin\<close> if the minimum label value is 0, and otherwise
  \<open>zeroLineY = pixelAtMax + valueMax / valuePerPixel\<close>.
\<close>

theorem zero_line_rule:
  "calibrate 0 axis_100_500 = Inr cal_100_500 \<and> zeroLineY cal_100_500 = Fin 350
   \<and> (calibrate n ys = Inr c \<longrightarrow>
        zeroLineY c = (if yv_value (yMin c) = 0 then Fin (yv_y (yMin c))
                       else jadd (Fin (yv_y (yMax c)))
                              (jdiv (Fin (real_of_int (yv_value (yMax c)))) (valuePerPixel c))))"
proof -
  have "calibrate 0 axis_100_500 = Inr cal_100_500" by code_simp
  moreover have "zeroLineY cal_100_500 = Fin 350" by (simp add: cal_100_500_def)
  moreover have "calibrate n ys = Inr c \<longrightarrow>
        zeroLineY c = (if yv_value (yMin c) = 0 then Fin (yv_y (yMin c))
                       else jadd (Fin (yv_y (yMax c)))
                              (jdiv (Fin (real_of_int (yv_value (yMax c)))) (valuePerPixel c)))"
  proof
    assume c: "calibrate n ys = Inr c"
    show "zeroLineY c = (if yv_value (yMin c) = 0 then Fin (yv_y (yMin c))
                       else jadd (Fin (yv_y (yMax c)))
                              (jdiv (Fin (real_of_int (yv_value (yMax c)))) (valuePerPixel c)))"
    proof (cases "yv_value (yMin c) = 0")
      case True
      then show ?thesis using calibrate_fields(6)[OF c] by simp
    next
      case False
      then show ?thesis using zero_rule_core[OF c False] by simp
    qed
  qed
  ultimately show ?thesis by blast
qed

text \<open>The rule at the labels \<open>100\<close> and \<open>500\<close>: \<open>100 + 500 / 2 = 350\<close>.\<close>

theorem zero_line_rule_witness:
  "zeroLineY cal_100_500 = jadd (Fin 100) (jdiv (Fin 500) (Fin 2))
   \<and> jadd (Fin 100) (jdiv (Fin 500) (Fin 2)) = Fin 350"
proof -
  have e: "calibrate 0 axis_100_500 = Inr cal_100_500"
    using zero_line_rule by blast
  from zero_line_rule[of 0 axis_100_500 cal_100_500] e
  have "zeroLineY cal_100_500 = (if yv_value (yMin cal_100_500) = 0 then Fin (yv_y (yMin cal_100_500))
                       else jadd (Fin (yv_y (yMax cal_100_500)))
                              (jdiv (Fin (real_of_int (yv_value (yMax cal_100_500)))) (valuePerPixel cal_100_500)))"
    by blast
  then show ?thesis by (simp add: cal_100_500_def)
qed

text \<open>C2 as stated fails: the zero line of that axis is the row 350, not 340.\<close>

theorem zero_line_340_counterexample:
  "calibrate 0 axis_100_500 = Inr cal_100_500
   \<and> zeroLineY cal_100_500 = Fin 350 \<and> zeroLineY cal_100_500 \<noteq> Fin 340"
  by code_simp

section \<open>Properties of the bar scanner\<close>

lemma pixelIndex_PosInf: "readByte d (pixelIndex w x PosInf) = None"
  by (cases "w = 0") (simp_all add: pixelIndex_def readByte_def)

lemma isDark_PosInf: "\<not> isDarkPixel d (pixelIndex w x PosInf)"
  by (simp add: isDarkPixel_def pixelIndex_PosInf)

lemma scanUp_Some_not_PosInf:
  assumes "scanUp d w x a y = Some r"
  shows "y \<noteq> PosInf"
proof (rule scanUp.raw_induct [where P = "\<lambda>d w x a y r. y \<noteq> PosInf", OF _ assms])
  fix f :: "nat list \<Rightarrow> nat \<Rightarrow> int \<Rightarrow> real \<Rightarrow> jsnum \<Rightarrow> jsnum option"
    and d w x a y r
  assume IH: "\<And>d w x a y r. f d w x a y = Some r \<Longrightarrow> y \<noteq> PosInf"
    and body: "(if jgt y (Fin a)
      then if isDarkPixel d (pixelIndex w x y) then Some y
           else f d w x a (jsub y (Fin 1))
      else Some (Fin (- 1))) = Some r"
  show "y \<noteq> PosInf"
  proof
    assume "y = PosInf"
    with body have "f d w x a PosInf = Some r"
      by (simp add: isDark_PosInf jsub_def)
    from IH [OF this] show False by simp
  qed
qed

lemma scanUp_PosInf: "scanUp d w x a PosInf = None"
  using scanUp_Some_not_PosInf[of d w x a PosInf] by (cases "scanUp d w x a PosInf") auto

lemma scanUp_NaN: "scanUp d w x a NaN = Some (Fin (- 1))"
  by (subst scanUp.simps) simp

lemma scanUp_NegInf: "scanUp d w x a NegInf = Some (Fin (- 1))"
  by (subst scanUp.simps) simp

lemma scanUp_Fin_step:
  "scanUp d w x a (Fin (real_of_int k)) =
     (if a < real_of_int k
      then (if isDarkPixel d (pixelIndex w x (Fin (real_of_int k))) then Some (Fin (real_of_int k))
            else scanUp d w x a (Fin (real_of_int (k - 1))))
      else Some (Fin (- 1)))"
  by (subst scanUp.simps) (simp add: jsub_def)

lemma scanUp_Fin_total: "\<exists>r. scanUp d w x a (Fin (real_of_int k)) = Some r"
proof (induction "nat (k - \<lfloor>a\<rfloor>)" arbitrary: k)
  case 0
  then have "\<not> a < real_of_int k" by linarith
  then show ?case by (subst scanUp_Fin_step) simp
next
  case (Suc n)
  then have "n = nat (k - 1 - \<lfloor>a\<rfloor>)" by linarith
  from Suc(1)[OF this] show ?case
    by (subst scanUp_Fin_step) auto
qed

lemma scanUp_Fin_blank:
  assumes "\<forall>j. \<lfloor>a\<rfloor> + 1 \<le> j \<and> j \<le> k \<longrightarrow> \<not> isDarkPixel d (pixelIndex w x (Fin (real_of_int j)))"
  shows "scanUp d w x a (Fin (real_of_int k)) = Some (Fin (- 1))"
  using assms
proof (induction "nat (k - \<lfloor>a\<rfloor>)" arbitrary: k)
  case 0
  then have "\<not> a < real_of_int k" by linarith
  then show ?case by (subst scanUp_Fin_step) simp
next
  case (Suc n)
  then have n: "n = nat (k - 1 - \<lfloor>a\<rfloor>)" by linarith
  from Suc(2) have k: "\<lfloor>a\<rfloor> + 1 \<le> k" by linarith
  with Suc(3) have nd: "\<not> isDarkPixel d (pixelIndex w x (Fin (real_of_int k)))" by simp
  have "scanUp d w x a (Fin (real_of_int (k - 1))) = Some (Fin (- 1))"
    using Suc(1)[OF n] Suc(3) by simp
  then show ?case using nd by (subst scanUp_Fin_step) simp
qed

lemma scanUp_blank:
  assumes "zeroY \<noteq> PosInf" and "blankColumn d w x a zeroY"
  shows "scanUp d w x a (jfloor zeroY) = Some (Fin (- 1))"
proof (cases zeroY)
  case (Fin z)
  with assms(2) have "\<forall>j. \<lfloor>a\<rfloor> + 1 \<le> j \<and> j \<le> \<lfloor>z\<rfloor> \<longrightarrow> \<not> isDarkPixel d (pixelIndex w x (Fin (real_of_int j)))"
    by (simp add: blankColumn_def scanRows_def list_all_iff)
  from scanUp_Fin_blank[OF this] Fin show ?thesis by simp
next
  case PosInf
  with assms(1) show ?thesis by simp
next
  case NegInf
  then show ?thesis by (simp add: scanUp_NegInf)
next
  case NaN
  then show ?thesis by (simp add: scanUp_NaN)
qed

lemma scanUp_total:
  assumes "zeroY \<noteq> PosInf"
  shows "\<exists>r. scanUp d w x a (jfloor zeroY) = Some r"
proof (cases zeroY)
  case (Fin z)
  then show ?thesis using scanUp_Fin_total[of d w x a "\<lfloor>z\<rfloor>"] by simp
next
  case PosInf
  with assms show ?thesis by simp
next
  case NegInf
  then show ?thesis by (simp add: scanUp_NegInf)
next
  case NaN
  then show ?thesis by (simp add: scanUp_NaN)
qed

lemma scanUp_Fin_find:
  "scanUp d w x a (Fin (real_of_int k)) =
     Some (case find (\<lambda>j. isDarkPixel d (pixelIndex w x (Fin (real_of_int j)))) (rev [\<lfloor>a\<rfloor> + 1 .. k]) of
             None \<Rightarrow> Fin (- 1) | Some j \<Rightarrow> Fin (real_of_int j))"
proof (induction "nat (k - \<lfloor>a\<rfloor>)" arbitrary: k)
  case 0
  then have "\<not> a < real_of_int k" and "[\<lfloor>a\<rfloor> + 1 .. k] = []" by (linarith, simp)
  then show ?case by (subst scanUp_Fin_step) simp
next
  case (Suc n)
  then have n: "n = nat (k - 1 - \<lfloor>a\<rfloor>)" by linarith
  from Suc(2) have k: "\<lfloor>a\<rfloor> + 1 \<le> k" by linarith
  then have lt: "a < real_of_int k" by linarith
  from k have rows: "rev [\<lfloor>a\<rfloor> + 1 .. k] = k # rev [\<lfloor>a\<rfloor> + 1 .. k - 1]"
    by (simp add: upto_rec2)
  show ?case
    using lt Suc(1)[OF n] by (subst scanUp_Fin_step) (simp add: rows)
qed

text \<open>The loop returns the first dark row among \<open>scanRows\<close>, or \<open>-1\<close>.\<close>

lemma scanUp_first_dark:
  assumes "zeroY \<noteq> PosInf"
  shows "scanUp d w x a (jfloor zeroY) =
     Some (case find (\<lambda>j. isDarkPixel d (pixelIndex w x (Fin (real_of_int j)))) (scanRows a zeroY) of
             None \<Rightarrow> Fin (- 1) | Some j \<Rightarrow> Fin (real_of_int j))"
proof (cases zeroY)
  case (Fin z)
  then show ?thesis using scanUp_Fin_find[of d w x a "\<lfloor>z\<rfloor>"] by (simp add: scanRows_def)
next
  case PosInf
  with assms show ?thesis by simp
next
  case NegInf
  then show ?thesis by (simp add: scanUp_NegInf scanRows_def)
next
  case NaN
  then show ?thesis by (simp add: scanUp_NaN scanRows_def)
qed

lemma barValue_blank: "barValue z v (Fin (- 1)) = Fin 0"
  by (simp add: barValue_def)

lemma scanSeries_total:
  assumes "zeroLineY c \<noteq> PosInf"
  shows "scanSeries img c years numYears mw js = Some (map (slotValue img c years numYears mw) js)"
proof (induction js)
  case Nil
  show ?case by simp
next
  case (Cons i js)
  obtain r where "scanUp (img_data img) (img_width img) (scanXOf mw numYears i) (yv_y (yMax c))
                         (jfloor (zeroLineY c)) = Some r"
    using scanUp_total[OF assms] by blast
  then show ?case using Cons by (simp add: slotValue_def)
qed

lemma scanMonths_total:
  assumes "zeroLineY c \<noteq> PosInf"
  shows "scanMonths img c years numYears mws =
     Some (map (\<lambda>mw. \<lparr> month = text mw, usage = map (slotValue img c years numYears mw) [0 ..< numYears] \<rparr>) mws)"
  by (induction mws) (simp_all add: scanSeries_total[OF assms])

lemma slotValue_blank:
  assumes "zeroLineY c \<noteq> PosInf"
    and "blankColumn (img_data img) (img_width img) (scanXOf mw numYears i) (yv_y (yMax c)) (zeroLineY c)"
  shows "value (slotValue img c years numYears mw i) = Fin 0"
  using scanUp_blank[OF assms] by (simp add: slotValue_def barValue_blank)

lemma detectBars_total:
  assumes cal: "calibrate (cand_id chart) (yAxis chart) = Inr c"
    and fin: "zeroLineY c \<noteq> PosInf"
    and ctx: "img_context img" and ms: "months chart \<noteq> []"
    and sz: "img_width img \<noteq> 0" "img_height img \<noteq> 0"
  shows "detectBarsForChart img chart =
     Some (Inr \<lparr> title = chartTitle chart, unit = chartUnit chart,
        data = map (\<lambda>mw. \<lparr> month = text mw,
                     usage = map (slotValue img c (map (\<lambda>l. text (word l)) (legend chart))
                                     (max 1 (length (legend chart))) mw)
                                 [0 ..< max 1 (length (legend chart))] \<rparr>)
                   (map word (months chart)) \<rparr>)"
  using ctx ms sz by (simp add: detectBarsForChart_def cal Let_def scanMonths_total[OF fin])

lemma scanSeries_PosInf:
  assumes "zeroLineY c = PosInf" and "js \<noteq> []"
  shows "scanSeries img c years numYears mw js = None"
  using assms by (cases js) (simp_all add: scanUp_PosInf)

lemma scanMonths_PosInf:
  assumes "zeroLineY c = PosInf" and "mws \<noteq> []" and "0 < numYears"
  shows "scanMonths img c years numYears mws = None"
proof -
  from assms(3) have "[0 ..< numYears] \<noteq> []" by simp
  from scanSeries_PosInf[OF assms(1) this] assms(2) show ?thesis
    by (cases mws) simp_all
qed

lemma detectBars_diverges:
  assumes cal: "calibrate (cand_id chart) (yAxis chart) = Inr c"
    and inf: "zeroLineY c = PosInf"
    and ctx: "img_context img" and ms: "months chart \<noteq> []"
    and sz: "img_width img \<noteq> 0" "img_height img \<noteq> 0"
  shows "detectBarsForChart img chart = None"
  using ctx ms sz
  by (simp add: detectBarsForChart_def cal Let_def scanMonths_PosInf[OF inf])

lemma white_not_dark: "\<not> isDarkPixel (replicate n 255) idx"
  by (auto simp: isDarkPixel_def readByte_def split: option.splits jsnum.splits if_splits)

lemma white_blank: "blankColumn (img_data (white_page w h)) w' x a z"
  by (simp add: blankColumn_def white_page_def white_not_dark list_all_iff)

lemma finder_dup_zero: "findChartCandidates (chart_page ''0'' ''0'') = [chart_of ''0'' ''0'']"
  by code_simp

lemma finder_dup_100: "findChartCandidates (chart_page ''100'' ''100'') = [chart_of ''100'' ''100'']"
  by code_simp

lemma calibrate_dup_zero: "calibrate 0 (yAxis (chart_of ''0'' ''0'')) =
    Inr \<lparr> yMin = \<lparr>yv_value = 0, yv_y = 30\<rparr>, yMax = \<lparr>yv_value = 0, yv_y = 10\<rparr>,
        pixelRange = 20, valueRange = 0, valuePerPixel = Fin 0, zeroLineY = Fin 30 \<rparr>"
  by code_simp

lemma calibrate_dup_100: "calibrate 0 (yAxis (chart_of ''100'' ''100'')) =
    Inr \<lparr> yMin = \<lparr>yv_value = 100, yv_y = 30\<rparr>, yMax = \<lparr>yv_value = 100, yv_y = 10\<rparr>,
        pixelRange = 20, valueRange = 0, valuePerPixel = Fin 0, zeroLineY = PosInf \<rparr>"
  by code_simp

lemma detect_dup_100: "detectBarsForChart (white_page 140 70) (chart_of ''100'' ''100'') = None"
proof -
  have "cand_id (chart_of ''100'' ''100'') = 0" by (simp add: chart_of_def)
  with calibrate_dup_100 have c: "calibrate (cand_id (chart_of ''100'' ''100'')) (yAxis (chart_of ''100'' ''100'')) =
    Inr \<lparr> yMin = \<lparr>yv_value = 100, yv_y = 30\<rparr>, yMax = \<lparr>yv_value = 100, yv_y = 10\<rparr>,
        pixelRange = 20, valueRange = 0, valuePerPixel = Fin 0, zeroLineY = PosInf \<rparr>" by simp
  show ?thesis
    by (rule detectBars_diverges[OF c]) (simp_all add: white_page_def chart_of_def)
qed

lemma detect_dup_zero: "detectBarsForChart (white_page 140 70) (chart_of ''0'' ''0'') =
   Some (Inr \<lparr> title = ''Usage Chart 0'', unit = ''Units'',
     data = [\<lparr> month = ''Jan'', usage = [\<lparr> year = ''Year 1'', value = Fin 0 \<rparr>] \<rparr>,
             \<lparr> month = ''Feb'', usage = [\<lparr> year = ''Year 1'', value = Fin 0 \<rparr>] \<rparr>,
             \<lparr> month = ''Mar'', usage = [\<lparr> year = ''Year 1'', value = Fin 0 \<rparr>] \<rparr>,
             \<lparr> month = ''Apr'', usage = [\<lparr> year = ''Year 1'', value = Fin 0 \<rparr>] \<rparr>] \<rparr>)"
proof -
  let ?c = "\<lparr> yMin = \<lparr>yv_value = 0, yv_y = 30\<rparr>, yMax = \<lparr>yv_value = 0, yv_y = 10\<rparr>,
        pixelRange = 20, valueRange = 0, valuePerPixel = Fin 0, zeroLineY = Fin 30 \<rparr>"
  have "cand_id (chart_of ''0'' ''0'') = 0" by (simp add: chart_of_def)
  with calibrate_dup_zero have c: "calibrate (cand_id (chart_of ''0'' ''0'')) (yAxis (chart_of ''0'' ''0'')) = Inr ?c"
    by simp
  have fin: "zeroLineY ?c \<noteq> PosInf" by simp
  have sv: "\<And>n mw i. slotValue (white_page 140 70) ?c [] n mw i = \<lparr> year = yearLabel [] i, value = Fin 0 \<rparr>"
  proof -
    fix n mw i
    have "value (slotValue (white_page 140 70) ?c [] n mw i) = Fin 0"
      by (rule slotValue_blank[OF fin]) (simp add: white_blank)
    moreover have "year (slotValue (white_page 140 70) ?c [] n mw i) = yearLabel [] i"
      by (simp add: slotValue_def)
    ultimately show "slotValue (white_page 140 70) ?c [] n mw i = \<lparr> year = yearLabel [] i, value = Fin 0 \<rparr>"
      by (cases "slotValue (white_page 140 70) ?c [] n mw i") simp
  qed
  have y1: "yearLabel [] 0 = ''Year 1''" by code_simp
  have t: "chartTitle (chart_of ''0'' ''0'') = ''Usage Chart 0''" by code_simp
  have u: "chartUnit (chart_of ''0'' ''0'') = ''Units''" by code_simp
  have "detectBarsForChart (white_page 140 70) (chart_of ''0'' ''0'') = 
     Some (Inr \<lparr> title = chartTitle (chart_of ''0'' ''0''), unit = chartUnit (chart_of ''0'' ''0''),
        data = map (\<lambda>mw. \<lparr> month = text mw,
                     usage = map (slotValue (white_page 140 70) ?c (map (\<lambda>l. text (word l)) (legend (chart_of ''0'' ''0'')))
                                     (max 1 (length (legend (chart_of ''0'' ''0'')))) mw)
                                 [0 ..< max 1 (length (legend (chart_of ''0'' ''0'')))] \<rparr>)
                   (map word (months (chart_of ''0'' ''0''))) \<rparr>)"
    by (rule detectBars_total[OF c fin]) (simp_all add: white_page_def chart_of_def)
  also have "legend (chart_of ''0'' ''0'') = []" by (simp add: chart_of_def)
  finally show ?thesis
    by (simp add: sv y1 t u) (simp add: chart_of_def word_def mkWord_def)
qed

text \<open>
  C3 at two candidates whose y-axis words parse to one value. For the labels \<open>0\<close>
  and \<open>0\<close> the call returns a chart (every value 0) instead of raising; for the labels
  \<open>100\<close> and \<open>100\<close> the zero line is \<open>+Infinity\<close> and the call never returns. Both
  candidates are what \<open>findChartCandidates\<close> yields for the page.
\<close>

theorem duplicate_labels_not_rejected:
  "findChartCandidates (chart_page ''0'' ''0'') = [chart_of ''0'' ''0'']
   \<and> detectBarsForChart (white_page 140 70) (chart_of ''0'' ''0'') =
       Some (Inr \<lparr> title = ''Usage Chart 0'', unit = ''Units'',
         data = [\<lparr> month = ''Jan'', usage = [\<lparr> year = ''Year 1'', value = Fin 0 \<rparr>] \<rparr>,
                 \<lparr> month = ''Feb'', usage = [\<lparr> year = ''Year 1'', value = Fin 0 \<rparr>] \<rparr>,
                 \<lparr> month = ''Mar'', usage = [\<lparr> year = ''Year 1'', value = Fin 0 \<rparr>] \<rparr>,
                 \<lparr> month = ''Apr'', usage = [\<lparr> year = ''Year 1'', value = Fin 0 \<rparr>] \<rparr>] \<rparr>)
   \<and> findChartCandidates (chart_page ''100'' ''100'') = [chart_of ''100'' ''100'']
   \<and> detectBarsForChart (white_page 140 70) (chart_of ''100'' ''100'') = None"
  using finder_dup_zero finder_dup_100 detect_dup_zero detect_dup_100 by blast

text \<open>The scan loop in binary64.\<close>

lemma dsub_int_one:
  assumes "- (2 ^ 53) < k" and "k \<le> 2 ^ 53"
  shows "dsub (Fin (real_of_int k)) (Fin 1) = Fin (real_of_int (k - 1))"
proof -
  have "\<bar>k - 1\<bar> \<le> 2 ^ 53" using assms by linarith
  from fl_int[OF this] show ?thesis by (simp add: dsub_def jsub_def)
qed

lemma scanUp64_NaN: "scanUp64 d w x a NaN = Some (Fin (- 1))"
  by (subst scanUp64.simps) simp

lemma scanUp64_NegInf: "scanUp64 d w x a NegInf = Some (Fin (- 1))"
  by (subst scanUp64.simps) simp

lemma scanUp64_above: "\<not> a < real_of_int k \<Longrightarrow> scanUp64 d w x a (Fin (real_of_int k)) = Some (Fin (- 1))"
  by (subst scanUp64.simps) simp

lemma scanUp64_step:
  assumes "- (2 ^ 53) < k" and "k \<le> 2 ^ 53"
  shows "scanUp64 d w x a (Fin (real_of_int k)) =
     (if a < real_of_int k
      then (if isDarkPixel64 d (pixelIndex64 w x (Fin (real_of_int k))) then Some (Fin (real_of_int k))
            else scanUp64 d w x a (Fin (real_of_int (k - 1))))
      else Some (Fin (- 1)))"
  by (subst scanUp64.simps) (simp only: dsub_int_one[OF assms] jgt.simps)

lemma scanUp64_Fin_blank:
  assumes "- (2 ^ 53) \<le> \<lfloor>a\<rfloor>" and "k \<le> 2 ^ 53"
    and "\<forall>j. \<lfloor>a\<rfloor> + 1 \<le> j \<and> j \<le> k \<longrightarrow> \<not> isDarkPixel64 d (pixelIndex64 w x (Fin (real_of_int j)))"
  shows "scanUp64 d w x a (Fin (real_of_int k)) = Some (Fin (- 1))"
  using assms(2,3)
proof (induction "nat (k - \<lfloor>a\<rfloor>)" arbitrary: k)
  case 0
  then have "\<not> a < real_of_int k" by linarith
  then show ?case by (rule scanUp64_above)
next
  case (Suc n)
  then have n: "n = nat (k - 1 - \<lfloor>a\<rfloor>)" by linarith
  from Suc(2) have k: "\<lfloor>a\<rfloor> + 1 \<le> k" by linarith
  with Suc(4) have nd: "\<not> isDarkPixel64 d (pixelIndex64 w x (Fin (real_of_int k)))" by simp
  have lo: "- (2 ^ 53) < k" using k assms(1) by linarith
  have "scanUp64 d w x a (Fin (real_of_int (k - 1))) = Some (Fin (- 1))"
    using Suc(1)[OF n] Suc(3,4) by simp
  then show ?case using nd by (subst scanUp64_step[OF lo Suc(3)]) simp
qed

lemma scanUp64_blank:
  assumes "exactRows a zeroY" and "blankColumn64 d w x a zeroY"
  shows "scanUp64 d w x a (jfloor zeroY) = Some (Fin (- 1))"
proof (cases zeroY)
  case (Fin z)
  show ?thesis
  proof (cases "\<lfloor>z\<rfloor> \<le> \<lfloor>a\<rfloor>")
    case True
    then have "\<not> a < real_of_int \<lfloor>z\<rfloor>" by linarith
    then show ?thesis using Fin by (simp add: scanUp64_above)
  next
    case False
    with assms(1) Fin have r: "- (2 ^ 53) \<le> \<lfloor>a\<rfloor>" "\<lfloor>z\<rfloor> \<le> 2 ^ 53"
      by (simp_all add: exactRows_def)
    from assms(2) Fin
    have "\<forall>j. \<lfloor>a\<rfloor> + 1 \<le> j \<and> j \<le> \<lfloor>z\<rfloor> \<longrightarrow> \<not> isDarkPixel64 d (pixelIndex64 w x (Fin (real_of_int j)))"
      by (simp add: blankColumn64_def scanRows_def list_all_iff)
    from scanUp64_Fin_blank[OF r this] Fin show ?thesis by simp
  qed
next
  case PosInf
  with assms(1) show ?thesis by (simp add: exactRows_def)
next
  case NegInf
  then show ?thesis by (simp add: scanUp64_NegInf)
next
  case NaN
  then show ?thesis by (simp add: scanUp64_NaN)
qed

text \<open>A loop variable that \<open>y--\<close> leaves unchanged, on a row without a dark pixel: the
  loop never ends.\<close>

lemma scanUp64_stuck:
  assumes "dsub y (Fin 1) = y" and "jgt y (Fin a)" and "\<not> isDarkPixel64 d (pixelIndex64 w x y)"
  shows "scanUp64 d w x a y = None"
proof (cases "scanUp64 d w x a y")
  case None
  then show ?thesis .
next
  case (Some r)
  have "\<not> (dsub y (Fin 1) = y \<and> jgt y (Fin a) \<and> \<not> isDarkPixel64 d (pixelIndex64 w x y))"
  proof (rule scanUp64.raw_induct
      [where P = "\<lambda>d w x a y r. \<not> (dsub y (Fin 1) = y \<and> jgt y (Fin a) \<and> \<not> isDarkPixel64 d (pixelIndex64 w x y))",
        OF _ Some])
    fix f :: "nat list \<Rightarrow> nat \<Rightarrow> jsnum \<Rightarrow> real \<Rightarrow> jsnum \<Rightarrow> jsnum option"
      and d w x a y r
    assume IH: "\<And>d w x a y r. f d w x a y = Some r
        \<Longrightarrow> \<not> (dsub y (Fin 1) = y \<and> jgt y (Fin a) \<and> \<not> isDarkPixel64 d (pixelIndex64 w x y))"
      and body: "(if jgt y (Fin a)
        then if isDarkPixel64 d (pixelIndex64 w x y) then Some y
             else f d w x a (dsub y (Fin 1))
        else Some (Fin (- 1))) = Some r"
    show "\<not> (dsub y (Fin 1) = y \<and> jgt y (Fin a) \<and> \<not> isDarkPixel64 d (pixelIndex64 w x y))"
    proof
      assume s: "dsub y (Fin 1) = y \<and> jgt y (Fin a) \<and> \<not> isDarkPixel64 d (pixelIndex64 w x y)"
      with body have "f d w x a y = Some r" by simp
      from IH [OF this] s show False by simp
    qed
  qed
  with assms show ?thesis by simp
qed

lemma white_not_dark64: "\<not> isDarkPixel64 (replicate n 255) i"
  by (auto simp: isDarkPixel64_def readByte_def split: option.splits jsnum.splits)

lemma dsub_stuck: "dsub (Fin (2 ^ 56 + 16)) (Fin 1) = Fin (2 ^ 56 + 16)"
  using fl_big by (simp add: dsub_def jsub_def)

lemma scanUp64_hang:
  "scanUp64 (replicate n 255) w x 16 (Fin (2 ^ 56 + 16)) = None"
  by (rule scanUp64_stuck[OF dsub_stuck]) (simp_all add: white_not_dark64)

lemma dsub_low: "dsub (Fin (- 9007199254740992)) (Fin 1) = Fin (- 9007199254740992)"
  using fl_eval[of 53 "- 9007199254740993" "- (2 ^ 52)"]
  by (simp add: dsub_def jsub_def roundHalfEven_def)

lemma scanUp64_white_low:
  assumes "- (2 ^ 53) \<le> k" and "k \<le> 2 ^ 53" and "a < - (2 ^ 53)"
  shows "scanUp64 (replicate n 255) w x a (Fin (real_of_int k)) = None"
  using assms(1,2)
proof (induction "nat (k + 2 ^ 53)" arbitrary: k)
  case 0
  then have k: "k = - 9007199254740992" by simp
  have "jgt (Fin (- 9007199254740992)) (Fin a)" using assms(3) by simp
  from scanUp64_stuck[OF dsub_low this white_not_dark64]
  have "scanUp64 (replicate n 255) w x a (Fin (- 9007199254740992)) = None" .
  then show ?case by (simp add: k)
next
  case (Suc m)
  then have lo: "- (2 ^ 53) < k" by linarith
  have n: "m = nat (k - 1 + 2 ^ 53)" using Suc(2) by linarith
  have lt: "a < real_of_int k"
  proof -
    have "real_of_int (- (2 ^ 53)) < real_of_int k" using lo by (simp only: of_int_less_iff)
    with assms(3) show ?thesis by simp
  qed
  have "scanUp64 (replicate n 255) w x a (Fin (real_of_int (k - 1))) = None"
    using Suc(1)[OF n] lo Suc(4) by simp
  then show ?case
    by (subst scanUp64_step[OF lo Suc(4)]) (simp add: white_not_dark64 lt)
qed

lemma scanUp64_PosInf: "scanUp64 (replicate n 255) w x a PosInf = None"
  by (rule scanUp64_stuck) (simp_all add: dsub_def jsub_def white_not_dark64)

lemma white_blank64: "blankColumn64 (img_data (white_page m n)) w x a z"
  by (simp add: blankColumn64_def white_page_def white_not_dark64 list_all_iff)

text \<open>Every read of a row inside the image, in a column inside the image, is inside
  the buffer: the indices are integers below \<open>2\<^sup>5\<^sup>3\<close> and are computed exactly.\<close>

lemma pixelIndex64_int:
  assumes "0 \<le> j" and "j < int h" and "0 \<le> x" and "x < int w" and "4 * w * h \<le> 2 ^ 53"
  shows "pixelIndex64 w (Fin (real_of_int x)) (Fin (real_of_int j)) = Fin (real_of_int ((j * int w + x) * 4))"
proof -
  define N where "N = int w * int h"
  define p where "p = j * int w"
  have a: "p + x < N"
  proof -
    have "p + x < j * int w + int w" using assms(4) by (simp add: p_def)
    also have "\<dots> = (j + 1) * int w" by (simp add: algebra_simps)
    also have "\<dots> \<le> int h * int w" using assms(2) by (intro mult_right_mono) simp_all
    finally show ?thesis by (simp add: mult.commute N_def)
  qed
  have "int (4 * w * h) \<le> 2 ^ 53"
    using assms(5) by (metis of_nat_le_iff of_nat_numeral of_nat_power)
  then have b: "4 * N \<le> 2 ^ 53" by (simp add: N_def mult.assoc)
  have c: "0 \<le> p" using assms(1) by (simp add: p_def)
  have 1: "\<bar>j * int w\<bar> \<le> 2 ^ 53" using a b c assms(3) unfolding p_def[symmetric] by (simp add: abs_if)
  have 2: "\<bar>j * int w + x\<bar> \<le> 2 ^ 53" using a b c assms(3) unfolding p_def[symmetric] by (simp add: abs_if)
  have 3: "\<bar>(j * int w + x) * 4\<bar> \<le> 2 ^ 53" using a b c assms(3) unfolding p_def[symmetric] by (simp add: abs_if)
  have "dmul (Fin (real_of_int j)) (Fin (real w)) = Fin (real_of_int (j * int w))"
    using fl_int[OF 1] by (simp add: dmul_def)
  moreover have "dadd (Fin (real_of_int (j * int w))) (Fin (real_of_int x)) = Fin (real_of_int (j * int w + x))"
    using fl_int[OF 2] by (simp add: dadd_def)
  moreover have "dmul (Fin (real_of_int (j * int w + x))) (Fin 4) = Fin (real_of_int ((j * int w + x) * 4))"
    using fl_int[OF 3] by (simp add: dmul_def)
  ultimately show ?thesis by (simp only: pixelIndex64_def)
qed

lemma readByte64_inside:
  assumes len: "length d = 4 * w * h" and small: "length d \<le> 2 ^ 53"
    and x: "0 \<le> x" "x < int w" and j: "0 \<le> j" "j < int h"
  shows "readByte d (pixelIndex64 w (Fin (real_of_int x)) (Fin (real_of_int j))) \<noteq> None"
    and "readByte d (dadd (pixelIndex64 w (Fin (real_of_int x)) (Fin (real_of_int j))) (Fin 1)) \<noteq> None"
    and "readByte d (dadd (pixelIndex64 w (Fin (real_of_int x)) (Fin (real_of_int j))) (Fin 2)) \<noteq> None"
proof -
  define i where "i = (j * int w + x) * 4"
  have sm: "4 * w * h \<le> 2 ^ 53" using len small by simp
  have idx: "pixelIndex64 w (Fin (real_of_int x)) (Fin (real_of_int j)) = Fin (real_of_int i)"
    unfolding i_def by (rule pixelIndex64_int[OF j x sm])
  have i0: "0 \<le> i" using x j by (simp add: i_def)
  have "j * int w + x < int h * int w"
  proof -
    have "j + 1 \<le> int h" using j by simp
    then have "(j + 1) * int w \<le> int h * int w" by (rule mult_right_mono) simp
    then show ?thesis using x by (simp add: algebra_simps)
  qed
  then have "(j * int w + x) * 4 + 4 \<le> int h * int w * 4" by simp
  then have hi: "i + 3 < int (length d)" by (simp add: i_def len algebra_simps)
  have "int (length d) \<le> 2 ^ 53"
    using small by (metis of_nat_le_iff of_nat_numeral of_nat_power)
  with hi i0 have b: "\<bar>i + 1\<bar> \<le> 2 ^ 53" "\<bar>i + 2\<bar> \<le> 2 ^ 53" by simp_all
  have i1: "dadd (Fin (real_of_int i)) (Fin 1) = Fin (real_of_int (i + 1))"
    using fl_int[OF b(1)] by (simp add: dadd_def)
  have i2: "dadd (Fin (real_of_int i)) (Fin 2) = Fin (real_of_int (i + 2))"
    using fl_int[OF b(2)] by (simp add: dadd_def)
  have r: "readByte d (Fin (real_of_int k)) \<noteq> None" if "0 \<le> k" "k < int (length d)" for k
    using that by (simp add: readByte_def)
  show "readByte d (pixelIndex64 w (Fin (real_of_int x)) (Fin (real_of_int j))) \<noteq> None"
    unfolding idx using i0 hi by (intro r) simp_all
  show "readByte d (dadd (pixelIndex64 w (Fin (real_of_int x)) (Fin (real_of_int j))) (Fin 1)) \<noteq> None"
    unfolding idx i1 using i0 hi by (intro r) simp_all
  show "readByte d (dadd (pixelIndex64 w (Fin (real_of_int x)) (Fin (real_of_int j))) (Fin 2)) \<noteq> None"
    unfolding idx i2 using i0 hi by (intro r) simp_all
qed

lemma readsInside64_image:
  assumes len: "length d = 4 * w * h" and small: "length d \<le> 2 ^ 53"
    and x: "0 \<le> x" "x < int w"
    and rows: "\<forall>j\<in>set (scanRows a z). 0 \<le> j \<and> j < int h"
  shows "readsInside64 d w (Fin (real_of_int x)) a z"
proof -
  have "readByte d (pixelIndex64 w (Fin (real_of_int x)) (Fin (real_of_int j))) \<noteq> None
      \<and> readByte d (dadd (pixelIndex64 w (Fin (real_of_int x)) (Fin (real_of_int j))) (Fin 1)) \<noteq> None
      \<and> readByte d (dadd (pixelIndex64 w (Fin (real_of_int x)) (Fin (real_of_int j))) (Fin 2)) \<noteq> None"
    if "j \<in> set (scanRows a z)" for j
  proof -
    from rows that have j: "0 \<le> j" "j < int h" by auto
    from readByte64_inside[OF len small x j] show ?thesis by blast
  qed
  then show ?thesis by (simp add: readsInside64_def list_all_iff)
qed

text \<open>
  C6, as the code has it. For every scan column, top of the chart area and zero line:
  when the rows between the zero line and the top lie between \<open>-2\<^sup>5\<^sup>3\<close> and \<open>2\<^sup>5\<^sup>3\<close>
  (or there is no such row) and the column holds no dark pixel on these rows, the scan
  loop ends with \<open>barTopY = -1\<close> and the value pushed for the slot is 0. No error is
  raised by a read: outside the buffer it gives \<open>undefined\<close>, which is not dark. Every
  read is inside the buffer when the column and the rows lie inside the image (a
  buffer of \<open>4 * width * height\<close> bytes, at most \<open>2\<^sup>5\<^sup>3\<close>).
\<close>

theorem blank_column64_records_zero:
  assumes "exactRows areaY0 zeroY" and "blankColumn64 d w scanX areaY0 zeroY"
  shows "scanUp64 d w scanX areaY0 (jfloor zeroY) = Some (Fin (- 1))
     \<and> scanSlot64 d w scanX areaY0 zeroY vpp = Some (Fin 0)
     \<and> (\<forall>x h. scanX = Fin (real_of_int x) \<and> length d = 4 * w * h \<and> length d \<le> 2 ^ 53
            \<and> 0 \<le> x \<and> x < int w
            \<and> (\<forall>j\<in>set (scanRows areaY0 zeroY). 0 \<le> j \<and> j < int h)
          \<longrightarrow> readsInside64 d w scanX areaY0 zeroY)"
proof -
  have s: "scanUp64 d w scanX areaY0 (jfloor zeroY) = Some (Fin (- 1))"
    by (rule scanUp64_blank[OF assms])
  then have v: "scanSlot64 d w scanX areaY0 zeroY vpp = Some (Fin 0)"
    by (simp add: scanSlot64_def barValue64_def)
  have "\<forall>x h. scanX = Fin (real_of_int x) \<and> length d = 4 * w * h \<and> length d \<le> 2 ^ 53
            \<and> 0 \<le> x \<and> x < int w
            \<and> (\<forall>j\<in>set (scanRows areaY0 zeroY). 0 \<le> j \<and> j < int h)
          \<longrightarrow> readsInside64 d w scanX areaY0 zeroY"
    using readsInside64_image by blast
  with s v show ?thesis by blast
qed

text \<open>A white page of 140 by 70 pixels with the labels \<open>0\<close> at row 30 and \<open>500\<close> at
  row 10: the zero line is row 30, the slot of column 45 has the value 0, and the rows
  11 to 30 are read inside the buffer.\<close>

theorem blank_column64_records_zero_witness:
  "calibrate64 0 [\<lparr>yv_value = 0, yv_y = 30\<rparr>, \<lparr>yv_value = 500, yv_y = 10\<rparr>]
     = Inr (cal64 0 30 500 10 20 500 25 30)
   \<and> scanSlot64 (img_data (white_page 140 70)) 140 (Fin 45) 10 (Fin 30) (Fin 25) = Some (Fin 0)
   \<and> readsInside64 (img_data (white_page 140 70)) 140 (Fin 45) 10 (Fin 30)"
proof -
  have e: "exactRows 10 (Fin 30)" by (simp add: exactRows_def)
  have b: "blankColumn64 (img_data (white_page 140 70)) 140 (Fin 45) 10 (Fin 30)"
    by (rule white_blank64)
  have len: "length (img_data (white_page 140 70)) = 4 * 140 * 70" by (simp add: white_page_def)
  have rows: "\<forall>j\<in>set (scanRows 10 (Fin 30)). 0 \<le> j \<and> j < int 70" by (simp add: scanRows_def)
  from blank_column64_records_zero[OF e b, of "Fin 25"]
  have s: "scanSlot64 (img_data (white_page 140 70)) 140 (Fin 45) 10 (Fin 30) (Fin 25) = Some (Fin 0)"
    and r: "\<forall>x h. Fin 45 = Fin (real_of_int x) \<and> length (img_data (white_page 140 70)) = 4 * 140 * h
            \<and> length (img_data (white_page 140 70)) \<le> 2 ^ 53
            \<and> 0 \<le> x \<and> x < int 140
            \<and> (\<forall>j\<in>set (scanRows 10 (Fin 30)). 0 \<le> j \<and> j < int h)
          \<longrightarrow> readsInside64 (img_data (white_page 140 70)) 140 (Fin 45) 10 (Fin 30)"
    by blast+
  have "Fin 45 = Fin (real_of_int 45) \<and> length (img_data (white_page 140 70)) = 4 * 140 * 70
            \<and> length (img_data (white_page 140 70)) \<le> 2 ^ 53
            \<and> (0::int) \<le> 45 \<and> (45::int) < int 140
            \<and> (\<forall>j\<in>set (scanRows 10 (Fin 30)). 0 \<le> j \<and> j < int 70)"
    using rows by (simp add: white_page_def)
  with r[rule_format, of 45 70] s
  have "scanSlot64 (img_data (white_page 140 70)) 140 (Fin 45) 10 (Fin 30) (Fin 25) = Some (Fin 0)
     \<and> readsInside64 (img_data (white_page 140 70)) 140 (Fin 45) 10 (Fin 30)"
    by blast
  with cal64_0_500 show ?thesis by blast
qed

text \<open>
  C6 as stated fails on the reads and on the end of the loop. For the labels \<open>400\<close> at
  row 30 and \<open>500\<close> at row 10 the zero line is the row 110 of a page of 70 rows; the
  column 45 is blank, and the first read of the loop is the index 61780 of a buffer of
  39200 bytes. For the labels \<open>18014398509481984\<close> at row 16 and \<open>18014398509481980\<close>
  at row 32 the zero line is \<open>2\<^sup>5\<^sup>6 + 16\<close>, a row that \<open>y--\<close> leaves unchanged: the column
  is blank and the loop never ends. The same holds below \<open>-2\<^sup>5\<^sup>3\<close> (a top of
  \<open>-2\<^sup>5\<^sup>3 - 2\<close>) and for the zero line \<open>+Infinity\<close>.
\<close>

theorem blank_column64_counterexample:
  "calibrate64 0 [\<lparr>yv_value = 400, yv_y = 30\<rparr>, \<lparr>yv_value = 500, yv_y = 10\<rparr>]
     = Inr (cal64 400 30 500 10 20 100 5 110)
   \<and> exactRows 10 (Fin 110)
   \<and> blankColumn64 (img_data (white_page 140 70)) 140 (Fin 45) 10 (Fin 110)
   \<and> pixelIndex64 140 (Fin 45) (jfloor (Fin 110)) = Fin 61780
   \<and> length (img_data (white_page 140 70)) = 39200
   \<and> readByte (img_data (white_page 140 70)) (pixelIndex64 140 (Fin 45) (jfloor (Fin 110))) = None
   \<and> \<not> readsInside64 (img_data (white_page 140 70)) 140 (Fin 45) 10 (Fin 110)
   \<and> calibrate64 0 [\<lparr>yv_value = 18014398509481984, yv_y = 16\<rparr>, \<lparr>yv_value = 18014398509481980, yv_y = 32\<rparr>]
     = Inr (cal64 18014398509481980 32 18014398509481984 16 16 4 (1 / 4) 72057594037927952)
   \<and> blankColumn64 (img_data (white_page 140 70)) 140 (Fin 45) 16 (Fin 72057594037927952)
   \<and> scanUp64 (img_data (white_page 140 70)) 140 (Fin 45) 16 (jfloor (Fin 72057594037927952)) = None
   \<and> scanSlot64 (img_data (white_page 140 70)) 140 (Fin 45) 16 (Fin 72057594037927952) (Fin (1 / 4)) = None
   \<and> blankColumn64 (img_data (white_page 140 70)) 140 (Fin 45) (- 9007199254740994) (Fin 30)
   \<and> scanUp64 (img_data (white_page 140 70)) 140 (Fin 45) (- 9007199254740994) (jfloor (Fin 30)) = None
   \<and> scanUp64 (img_data (white_page 140 70)) 140 (Fin 45) 10 (jfloor PosInf) = None"
proof -
  have 1: "exactRows 10 (Fin 110)" by (simp add: exactRows_def)
  have 2: "blankColumn64 (img_data (white_page 140 70)) 140 (Fin 45) a z" for a z
    by (rule white_blank64)
  have p: "pixelIndex64 140 (Fin 45) (Fin 110) = Fin 61780"
    by (simp add: pixelIndex64_def dmul_def dadd_def)
  then have 3: "pixelIndex64 140 (Fin 45) (jfloor (Fin 110)) = Fin 61780"
    by simp
  have 4: "length (img_data (white_page 140 70)) = 39200" by (simp add: white_page_def)
  have q: "readByte (img_data (white_page 140 70)) (pixelIndex64 140 (Fin 45) (Fin 110)) = None"
    by (simp add: p readByte_def white_page_def)
  then have 5: "readByte (img_data (white_page 140 70)) (pixelIndex64 140 (Fin 45) (jfloor (Fin 110))) = None"
    by simp
  have m: "(110::int) \<in> set (scanRows 10 (Fin 110))" by (simp add: scanRows_def)
  have "readByte (img_data (white_page 140 70)) (pixelIndex64 140 (Fin 45) (Fin (real_of_int 110))) = None"
    using q by simp
  with m have "\<exists>j\<in>set (scanRows 10 (Fin 110)).
      readByte (img_data (white_page 140 70)) (pixelIndex64 140 (Fin 45) (Fin (real_of_int j))) = None"
    by blast
  then have 6: "\<not> readsInside64 (img_data (white_page 140 70)) 140 (Fin 45) 10 (Fin 110)"
    by (auto simp: readsInside64_def list_all_iff)
  have "scanUp64 (replicate (4 * 140 * 70) 255) 140 (Fin 45) 16 (Fin (2 ^ 56 + 16)) = None"
    by (rule scanUp64_hang)
  then have 7: "scanUp64 (img_data (white_page 140 70)) 140 (Fin 45) 16 (jfloor (Fin 72057594037927952)) = None"
    by (simp add: white_page_def)
  then have 8: "scanSlot64 (img_data (white_page 140 70)) 140 (Fin 45) 16 (Fin 72057594037927952) (Fin (1 / 4)) = None"
    by (simp add: scanSlot64_def)
  have "scanUp64 (replicate (4 * 140 * 70) 255) 140 (Fin 45) (- 9007199254740994) (Fin (real_of_int 30)) = None"
    by (rule scanUp64_white_low) simp_all
  then have 9: "scanUp64 (img_data (white_page 140 70)) 140 (Fin 45) (- 9007199254740994) (jfloor (Fin 30)) = None"
    by (simp add: white_page_def)
  have 10: "scanUp64 (img_data (white_page 140 70)) 140 (Fin 45) 10 (jfloor PosInf) = None"
    by (simp add: white_page_def scanUp64_PosInf)
  from cal64_400_500 1 2 3 4 5 6 cal64_huge 7 8 9 10 show ?thesis by blast
qed

section \<open>Properties of the candidate finder\<close>





lemma months_mkCandidate [simp]: "months (mkCandidate n sm ys pL pU) = sm"
  by (simp add: mkCandidate_def Let_def)

lemma yAxis_mkCandidate [simp]: "yAxis (mkCandidate n sm ys pL pU) = ys"
  by (simp add: mkCandidate_def Let_def)

lemma hd_monthGroup [simp]: "hd (monthGroup m rest) = m"
  by (simp add: monthGroup_def)















text \<open>
  C5 at a page with two rows of month words. The group of \<open>Jan\<close> (row 400) takes \<open>Mar\<close>
  (row 409); the group of \<open>Feb\<close> (row 418) takes \<open>Mar\<close> as well, and is accepted because
  only its first word \<open>Feb\<close> is looked up in the earlier candidates. The word at
  position 4 of the page is in the months of both candidates.
\<close>

theorem overlapping_groups_share_word:
  "map (\<lambda>c. map fst (months c)) (findChartCandidates overlap_words) = [[2, 4, 5, 6], [3, 4, 7, 8]]
   \<and> map (\<lambda>c. map (\<lambda>r. text (word r)) (months c)) (findChartCandidates overlap_words)
       = [[''Jan'', ''Mar'', ''Apr'', ''May''], [''Feb'', ''Mar'', ''Jun'', ''Jul'']]
   \<and> overlap_words ! 4 = mkWord ''Mar'' 130 404 150 414"
  by code_simp

section \<open>Properties of the exported function\<close>

text \<open>
  C7 where the engine is unavailable: \<open>createWorker\<close> is awaited before the \<open>try\<close>, so
  its failure is the failure of \<open>processChart\<close>, whatever the rest would do.
\<close>

theorem processChart_createWorker_rejects:
  "processChart \<lparr> createWorker = Some e, recognize = r, terminate = t \<rparr> img = Some (Inl e)"
  by (simp add: processChart_def)

text \<open>What holds of the containment: a failure of \<open>recognize\<close> gives the empty
  sequence, a failure of \<open>terminate\<close> (in \<open>finally\<close>) is again the failure of the call,
  and a candidate whose measurement throws is left out while the others are kept.\<close>

lemma processChart_recognize_fails:
  "createWorker eng = None \<Longrightarrow> recognize eng = Inl e \<Longrightarrow> terminate eng = None
     \<Longrightarrow> processChart eng img = Some (Inr [])"
  by (simp add: processChart_def processChartBody_def)

lemma processChart_terminate_rejects:
  "createWorker eng = None \<Longrightarrow> processChartBody eng img = Some cs \<Longrightarrow> terminate eng = Some e
     \<Longrightarrow> processChart eng img = Some (Inl e)"
  by (simp add: processChart_def)

lemma processCandidates_skips_failure:
  assumes "detectBarsForChart img c = Some (Inl e)"
  shows "processCandidates img (pre @ c # post) = processCandidates img (pre @ post)"
  using assms by (induction pre) (simp_all split: option.splits sum.splits)

lemma processCandidates_keeps_success:
  assumes "detectBarsForChart img c = Some (Inr d)"
  shows "processCandidates img (c # post) = map_option ((#) d) (processCandidates img post)"
  using assms by (simp split: option.splits)

end
